theory Spec2Isabelle
  imports
    Main
    "HOL-Library.AList"
    "HOL-Library.Char_ord"
    "HOL-Library.List_Lexorder"
    "HOL-Library.Product_Lexorder"
begin

section \<open>Oracle tracker: data model\<close>

text \<open>
  The program is \<^verbatim>\<open>track_oracles_ts.py\<close>. A Python \<^verbatim>\<open>str\<close> is the list of its code
  points, ordered lexicographically code point by code point (the order of Python's
  \<^verbatim>\<open>sorted\<close> on \<^verbatim>\<open>str\<close>); \<open>lit\<close> gives the \<^verbatim>\<open>str\<close> of an ASCII literal of the
  program. The bytes of a source file are a list of \<^typ>\<open>char\<close>. A Python \<^verbatim>\<open>dict\<close> is
  an association list in insertion order, read with \<^const>\<open>map_of\<close> and written with
  \<^const>\<open>AList.update\<close> (an existing key keeps its place, a new key is appended).
\<close>

type_synonym pystr = "int list"

type_synonym bytes = "char list"

definition lit :: "string \<Rightarrow> pystr" where
  "lit cs = map of_char cs"

text \<open>One element of \<^verbatim>\<open>oraclesBreakdown\<close>: the dict \<^verbatim>\<open>{"name": ..., "type": ...}\<close>.\<close>

record breakdown =
  b_name :: pystr
  b_type :: pystr

text \<open>The dict returned by \<^verbatim>\<open>object_to_protocol_min\<close> (keys id, name, file, oracles,
  oraclesBreakdown).\<close>

record protocol =
  p_id :: pystr
  p_name :: pystr
  p_file :: pystr
  oracles :: "pystr list"
  oraclesBreakdown :: "breakdown list"

type_synonym dataset = "(pystr \<times> protocol) list"

text \<open>The dict appended to \<^verbatim>\<open>changes\<close> by \<^verbatim>\<open>diff_states\<close> (keys id, name, file, plus,
  minus, types).\<close>

record change =
  c_id :: pystr
  c_name :: pystr
  c_file :: pystr
  c_plus :: "pystr list"
  c_minus :: "pystr list"
  c_types :: "(pystr \<times> pystr \<times> pystr) list"

section \<open>Diffing\<close>

text \<open>
  \<^verbatim>\<open>str.strip()\<close> removes the leading and the trailing code points that are
  whitespace for Python (\<^verbatim>\<open>str.isspace\<close>): U+0009 to U+000D, U+001C to U+0020, U+0085,
  U+00A0, U+1680, U+2000 to U+200A, U+2028, U+2029, U+202F, U+205F and U+3000.
\<close>

definition isspace :: "int \<Rightarrow> bool" where
  "isspace c =
     ((9 \<le> c \<and> c \<le> 13) \<or> (28 \<le> c \<and> c \<le> 32) \<or> c = 0x85 \<or> c = 0xA0 \<or> c = 0x1680
      \<or> (0x2000 \<le> c \<and> c \<le> 0x200A) \<or> c = 0x2028 \<or> c = 0x2029 \<or> c = 0x202F
      \<or> c = 0x205F \<or> c = 0x3000)"

definition strip :: "pystr \<Rightarrow> pystr" where
  "strip s = rev (dropWhile isspace (rev (dropWhile isspace s)))"

text \<open>
  \<^verbatim>\<open>{ (x.get("name") or "").strip(): (x.get("type") or "").strip()
      for x in lst if (x.get("name") or "").strip() }\<close>:
  the comprehension stores the entries from left to right, so a later entry with the same
  stripped name replaces the type of an earlier one.
\<close>

definition breakdown_name_to_type :: "breakdown list \<Rightarrow> (pystr \<times> pystr) list" where
  "breakdown_name_to_type lst =
     fold (\<lambda>x d. AList.update (strip (b_name x)) (strip (b_type x)) d)
       (filter (\<lambda>x. strip (b_name x) \<noteq> []) lst) []"

text \<open>
  The body of the loop of \<^verbatim>\<open>diff_states\<close> for an id found on both sides: \<open>None\<close> when
  nothing is appended. The subscripts \<^verbatim>\<open>a_bt[n]\<close> and \<^verbatim>\<open>b_bt[n]\<close> are only taken at
  names \<open>n\<close> that are keys of both dicts.
\<close>

definition diff_entry :: "pystr \<Rightarrow> protocol \<Rightarrow> protocol \<Rightarrow> change option" where
  "diff_entry pid a b =
     (let a_or = set (oracles a); b_or = set (oracles b);
          or_added = b_or - a_or; or_removed = a_or - b_or;
          a_bt = breakdown_name_to_type (oraclesBreakdown a);
          b_bt = breakdown_name_to_type (oraclesBreakdown b);
          names_prev = set (map fst a_bt); names_next = set (map fst b_bt);
          type_changes =
            map (\<lambda>n. (n, the (map_of a_bt n), the (map_of b_bt n)))
              (filter (\<lambda>n. the (map_of a_bt n) \<noteq> the (map_of b_bt n))
                 (sorted_list_of_set (names_prev \<inter> names_next)));
          added_names = sorted_list_of_set (names_next - names_prev);
          removed_names = sorted_list_of_set (names_prev - names_next);
          plus = sorted_list_of_set (set added_names \<union> or_added);
          minus = sorted_list_of_set (set removed_names \<union> or_removed)
      in if plus \<noteq> [] \<or> minus \<noteq> [] \<or> type_changes \<noteq> []
         then Some \<lparr> c_id = pid,
                     c_name = (if p_name b \<noteq> [] then p_name b else p_name a),
                     c_file = p_file b,
                     c_plus = plus, c_minus = minus, c_types = type_changes \<rparr>
         else None)"

text \<open>The \<^verbatim>\<open>for pid in ...\<close> loop: an id missing on either side is skipped
  (\<^verbatim>\<open>continue\<close>). A record is a dict with its five keys, never an empty one, so
  \<^verbatim>\<open>not a\<close> holds only for a missing id.\<close>

fun diff_loop :: "dataset \<Rightarrow> dataset \<Rightarrow> pystr list \<Rightarrow> change list \<Rightarrow> change list" where
  "diff_loop prev nxt [] changes = changes"
| "diff_loop prev nxt (pid # pids) changes =
     (case (map_of prev pid, map_of nxt pid) of
        (Some a, Some b) \<Rightarrow>
          (case diff_entry pid a b of
             Some c \<Rightarrow> diff_loop prev nxt pids (changes @ [c])
           | None \<Rightarrow> diff_loop prev nxt pids changes)
      | _ \<Rightarrow> diff_loop prev nxt pids changes)"

definition diff_states :: "dataset \<Rightarrow> dataset \<Rightarrow> change list" where
  "diff_states prev nxt =
     diff_loop prev nxt (sorted_list_of_set (set (map fst prev) \<union> set (map fst nxt))) []"

section \<open>Syntax tree and extraction\<close>

text \<open>
  A Tree-sitter node as the program reads it: its type tag, whether it is a named node,
  the field name under which its parent holds it (if any), its byte range in the source,
  and its children in order. The parser itself is outside the program.
\<close>

datatype node =
  Node (ntype: string) (is_named: bool) (field_name: "string option")
       (start_byte: nat) (end_byte: nat) (children: "node list")

definition named_children :: "node \<Rightarrow> node list" where
  "named_children n = filter is_named (children n)"

definition child_by_field_name :: "node \<Rightarrow> string \<Rightarrow> node option" where
  "child_by_field_name n f = find (\<lambda>c. field_name c = Some f) (children n)"

text \<open>
  \<^verbatim>\<open>bytes.decode("utf-8", errors="ignore")\<close> on a list of byte values. A byte that
  cannot start a sequence is dropped. When a lead byte is followed by a byte that cannot
  continue it, the bytes of the sequence read so far are dropped and decoding goes on at
  the offending byte. A sequence cut off by the end of the data is dropped. Overlong
  forms, surrogates and values above U+10FFFF are refused at the second byte.
\<close>

definition is_continuation :: "int \<Rightarrow> bool" where
  "is_continuation b = (0x80 \<le> b \<and> b < 0xC0)"

fun utf8_decode_ignore :: "int list \<Rightarrow> pystr" where
  "utf8_decode_ignore [] = []"
| "utf8_decode_ignore (ch # s) =
     (if ch < 0x80 then ch # utf8_decode_ignore s
      else if ch < 0xC2 then utf8_decode_ignore s
      else if ch < 0xE0 then
        (case s of
           [] \<Rightarrow> []
         | ch2 # s2 \<Rightarrow>
             if \<not> is_continuation ch2 then utf8_decode_ignore s
             else ((ch - 0xC0) * 0x40 + (ch2 - 0x80)) # utf8_decode_ignore s2)
      else if ch < 0xF0 then
        (case s of
           [] \<Rightarrow> []
         | ch2 # s2 \<Rightarrow>
             if \<not> is_continuation ch2 \<or> (if ch2 < 0xA0 then ch = 0xE0 else ch = 0xED)
             then utf8_decode_ignore s
             else (case s2 of
                     [] \<Rightarrow> []
                   | ch3 # s3 \<Rightarrow>
                       if \<not> is_continuation ch3 then utf8_decode_ignore s2
                       else ((ch - 0xE0) * 0x1000 + (ch2 - 0x80) * 0x40 + (ch3 - 0x80))
                              # utf8_decode_ignore s3))
      else if ch < 0xF5 then
        (case s of
           [] \<Rightarrow> []
         | ch2 # s2 \<Rightarrow>
             if \<not> is_continuation ch2 \<or> (if ch2 < 0x90 then ch = 0xF0 else ch = 0xF4)
             then utf8_decode_ignore s
             else (case s2 of
                     [] \<Rightarrow> []
                   | ch3 # s3 \<Rightarrow>
                       if \<not> is_continuation ch3 then utf8_decode_ignore s2
                       else (case s3 of
                               [] \<Rightarrow> []
                             | ch4 # s4 \<Rightarrow>
                                 if \<not> is_continuation ch4 then utf8_decode_ignore s3
                                 else ((ch - 0xF0) * 0x40000 + (ch2 - 0x80) * 0x1000
                                         + (ch3 - 0x80) * 0x40 + (ch4 - 0x80))
                                        # utf8_decode_ignore s4)))
      else utf8_decode_ignore s)"

text \<open>\<^verbatim>\<open>src[node.start_byte:node.end_byte].decode("utf-8", errors="ignore")\<close>.\<close>

definition get_text :: "node \<Rightarrow> bytes \<Rightarrow> pystr" where
  "get_text n src =
     utf8_decode_ignore (map of_char (take (end_byte n - start_byte n) (drop (start_byte n) src)))"

definition unquote :: "pystr \<Rightarrow> pystr" where
  "unquote s =
     (if length s \<ge> 2 \<and> ((hd s = 0x22 \<and> last s = 0x22) \<or> (hd s = 0x27 \<and> last s = 0x27))
      then butlast (tl s) else s)"

definition node_is_string :: "node \<Rightarrow> bool" where
  "node_is_string n = (ntype n = ''string'')"

definition node_is_array :: "node \<Rightarrow> bool" where
  "node_is_array n = (ntype n = ''array'')"

definition node_is_object :: "node \<Rightarrow> bool" where
  "node_is_object n = (ntype n = ''object'')"

text \<open>The generator \<^verbatim>\<open>iter_object_pairs\<close>, as the list of the pairs it yields.\<close>

definition iter_object_pairs :: "node \<Rightarrow> (node \<times> node) list" where
  "iter_object_pairs obj_node =
     List.map_filter
       (\<lambda>child. if ntype child = ''pair''
                then (case (child_by_field_name child ''key'', child_by_field_name child ''value'') of
                        (Some key, Some val) \<Rightarrow> Some (key, val)
                      | _ \<Rightarrow> None)
                else None)
       (children obj_node)"

definition key_name :: "node \<Rightarrow> bytes \<Rightarrow> pystr option" where
  "key_name key_node src =
     (if ntype key_node = ''property_identifier'' then Some (get_text key_node src)
      else if ntype key_node = ''string'' then Some (unquote (get_text key_node src))
      else None)"

definition array_string_values :: "node \<Rightarrow> bytes \<Rightarrow> pystr list" where
  "array_string_values arr_node src =
     map (\<lambda>el. unquote (get_text el src)) (filter node_is_string (named_children arr_node))"

text \<open>The inner loop of \<^verbatim>\<open>oracles_breakdown_items\<close> over the pairs of one element:
  the state is \<open>(name_val, type_val)\<close>.\<close>

definition breakdown_step :: "bytes \<Rightarrow> node \<times> node \<Rightarrow> pystr \<times> pystr \<Rightarrow> pystr \<times> pystr" where
  "breakdown_step src kv st =
     (case kv of (k_node, v_node) \<Rightarrow> case st of (name_val, type_val) \<Rightarrow>
        let k = key_name k_node src in
        if k = Some (lit ''name'') \<and> node_is_string v_node then (unquote (get_text v_node src), type_val)
        else if k = Some (lit ''type'') \<and> node_is_string v_node then (name_val, unquote (get_text v_node src))
        else (name_val, type_val))"

definition breakdown_fields :: "node \<Rightarrow> bytes \<Rightarrow> pystr \<times> pystr" where
  "breakdown_fields el src = fold (breakdown_step src) (iter_object_pairs el) ([], [])"

definition breakdown_items_unsorted :: "node \<Rightarrow> bytes \<Rightarrow> breakdown list" where
  "breakdown_items_unsorted arr_node src =
     List.map_filter
       (\<lambda>el. case breakdown_fields el src of (name_val, type_val) \<Rightarrow>
                if name_val \<noteq> [] \<or> type_val \<noteq> []
                then Some \<lparr> b_name = name_val, b_type = type_val \<rparr> else None)
       (filter node_is_object (named_children arr_node))"

definition oracles_breakdown_items :: "node \<Rightarrow> bytes \<Rightarrow> breakdown list" where
  "oracles_breakdown_items arr_node src =
     sort_key (\<lambda>x. (b_name x, b_type x)) (breakdown_items_unsorted arr_node src)"

text \<open>The local variables of \<^verbatim>\<open>object_to_protocol_min\<close>.\<close>

record proto_state =
  s_pid :: "pystr option"
  s_name :: pystr
  s_oracles :: "pystr list"
  s_breakdown :: "breakdown list"

definition proto_step :: "bytes \<Rightarrow> node \<times> node \<Rightarrow> proto_state \<Rightarrow> proto_state" where
  "proto_step src kv st =
     (case kv of (k_node, v_node) \<Rightarrow>
        case key_name k_node src of
          None \<Rightarrow> st
        | Some k \<Rightarrow>
            if k = [] then st
            else if k = lit ''id'' \<and> node_is_string v_node
              then st\<lparr> s_pid := Some (unquote (get_text v_node src)) \<rparr>
            else if k = lit ''name'' \<and> node_is_string v_node
              then st\<lparr> s_name := unquote (get_text v_node src) \<rparr>
            else if k = lit ''oracles'' \<and> node_is_array v_node
              then st\<lparr> s_oracles := sorted_list_of_set (set (array_string_values v_node src)) \<rparr>
            else if k = lit ''oraclesBreakdown'' \<and> node_is_array v_node
              then st\<lparr> s_breakdown := oracles_breakdown_items v_node src \<rparr>
            else st)"

definition proto_scan :: "node \<Rightarrow> bytes \<Rightarrow> proto_state" where
  "proto_scan obj_node src =
     fold (proto_step src) (iter_object_pairs obj_node)
       \<lparr> s_pid = None, s_name = [], s_oracles = [], s_breakdown = [] \<rparr>"

definition object_to_protocol_min :: "node \<Rightarrow> bytes \<Rightarrow> pystr \<Rightarrow> protocol option" where
  "object_to_protocol_min obj_node src file_name =
     (let st = proto_scan obj_node src in
      case s_pid st of
        None \<Rightarrow> None
      | Some pid \<Rightarrow>
          if pid = [] then None
          else Some \<lparr> p_id = pid, p_name = s_name st, p_file = file_name,
                      oracles = s_oracles st, oraclesBreakdown = s_breakdown st \<rparr>)"

text \<open>What the loop of \<^verbatim>\<open>parse_file_ts\<close> does with the node it pops.\<close>

definition visit :: "bytes \<Rightarrow> pystr \<Rightarrow> node \<Rightarrow> dataset \<Rightarrow> dataset" where
  "visit src file_name n by_id =
     (if node_is_object n
      then (case object_to_protocol_min n src file_name of
              Some mini \<Rightarrow> if p_id mini \<noteq> [] then AList.update (p_id mini) mini by_id else by_id
            | None \<Rightarrow> by_id)
      else by_id)"

text \<open>
  The \<^verbatim>\<open>while stack\<close> loop. The stack is kept with its top at the head of the list:
  \<^verbatim>\<open>stack.pop()\<close> takes the head, and appending the children in order leaves the last
  child on top.
\<close>

function walk :: "bytes \<Rightarrow> pystr \<Rightarrow> node list \<Rightarrow> dataset \<Rightarrow> dataset" where
  "walk src file_name [] by_id = by_id"
| "walk src file_name (n # stack) by_id =
     walk src file_name (rev (children n) @ stack) (visit src file_name n by_id)"
  by pat_completeness auto
termination
proof (relation "measure (\<lambda>(src, file_name, stack, by_id). sum_list (map size stack))")
  show "wf (measure (\<lambda>(src, file_name, stack, by_id). sum_list (map size stack)))"
    by simp
next
  fix src :: bytes and file_name :: pystr and n :: node and stack :: "node list" and by_id :: dataset
  have "sum_list (map size (children n)) < size n"
    by (cases n) (simp add: size_list_conv_sum_list)
  then show "((src, file_name, rev (children n) @ stack, visit src file_name n by_id),
              (src, file_name, n # stack, by_id))
             \<in> measure (\<lambda>(src, file_name, stack, by_id). sum_list (map size stack))"
    by (simp add: rev_map[symmetric])
qed

text \<open>\<^verbatim>\<open>parse_file_ts\<close>, given the root node that the parser returns for the bytes of
  the file.\<close>

definition parse_file_ts :: "(bytes \<Rightarrow> node) \<Rightarrow> bytes \<Rightarrow> pystr \<Rightarrow> dataset" where
  "parse_file_ts parse src file_name = walk src file_name [parse src] []"

section \<open>Snapshot\<close>

text \<open>A value that \<^verbatim>\<open>json.loads\<close> returns; \<open>JNull\<close> is Python's \<^verbatim>\<open>None\<close>.\<close>

datatype json =
  JNull | JBool bool | JInt int | JStr pystr | JArr "json list" | JObj "(pystr \<times> json) list"

datatype load_error = ReadError | JSONDecodeError

text \<open>
  The state of \<^verbatim>\<open>SNAPSHOT_FILE\<close> as \<^verbatim>\<open>load_snapshot\<close> meets it: no file; a file
  that \<^verbatim>\<open>read_text\<close> cannot read as UTF-8 text; a file whose text \<^verbatim>\<open>json.loads\<close>
  rejects; a file whose text is the JSON document of a value.
\<close>

datatype snapshot_file = NoFile | Unreadable | BadJSON | Document json

definition load_snapshot :: "snapshot_file \<Rightarrow> load_error + json" where
  "load_snapshot f =
     (case f of
        NoFile \<Rightarrow> Inr JNull
      | Unreadable \<Rightarrow> Inl ReadError
      | BadJSON \<Rightarrow> Inl JSONDecodeError
      | Document j \<Rightarrow> Inr j)"

section \<open>Building the dataset\<close>

definition TARGET_FILES :: "pystr list" where
  "TARGET_FILES =
     [lit ''data.ts'', lit ''data1.ts'', lit ''data2.ts'', lit ''data3.ts'', lit ''data4.ts'']"

text \<open>\<^verbatim>\<open>dataset.update(per_file)\<close>.\<close>

definition dict_update :: "dataset \<Rightarrow> dataset \<Rightarrow> dataset" where
  "dict_update d other = fold (\<lambda>kv d'. AList.update (fst kv) (snd kv) d') other d"

text \<open>
  The loop of \<^verbatim>\<open>main\<close> over the target files. \<open>files\<close> gives the bytes of
  \<^verbatim>\<open>repo / fname\<close>, or \<open>None\<close> when that path does not exist.
\<close>

fun scan_files ::
  "(bytes \<Rightarrow> node) \<Rightarrow> (pystr \<Rightarrow> bytes option) \<Rightarrow> pystr list \<Rightarrow> dataset \<Rightarrow> dataset" where
  "scan_files parse files [] dataset = dataset"
| "scan_files parse files (fname # rest) dataset =
     (case files fname of
        None \<Rightarrow> scan_files parse files rest dataset
      | Some src \<Rightarrow>
          scan_files parse files rest (dict_update dataset (parse_file_ts parse src fname)))"

definition build_dataset :: "(bytes \<Rightarrow> node) \<Rightarrow> (pystr \<Rightarrow> bytes option) \<Rightarrow> dataset" where
  "build_dataset parse files = scan_files parse files TARGET_FILES []"

section \<open>Notions used in the statements\<close>

text \<open>The names that the diff sees in a breakdown list: the stripped names that are not
  empty.\<close>

definition breakdown_names :: "breakdown list \<Rightarrow> pystr set" where
  "breakdown_names lst = set (filter (\<lambda>n. n \<noteq> []) (map (\<lambda>x. strip (b_name x)) lst))"

text \<open>A breakdown list without the entries whose name is empty or only whitespace, and
  with name and type stripped in the others.\<close>

definition strip_breakdown :: "breakdown \<Rightarrow> breakdown" where
  "strip_breakdown x = \<lparr> b_name = strip (b_name x), b_type = strip (b_type x) \<rparr>"

definition visible_breakdown :: "breakdown list \<Rightarrow> breakdown list" where
  "visible_breakdown lst = map strip_breakdown (filter (\<lambda>x. strip (b_name x) \<noteq> []) lst)"

definition with_visible_breakdown :: "dataset \<Rightarrow> dataset" where
  "with_visible_breakdown d =
     map (\<lambda>kv. (fst kv, (snd kv)\<lparr> oraclesBreakdown := visible_breakdown (oraclesBreakdown (snd kv)) \<rparr>)) d"



text \<open>The value of the last pair of an object literal that has the given key and a value
  of the wanted kind, and the text of a string-valued field with the empty string as
  default.\<close>

definition last_value :: "bytes \<Rightarrow> pystr \<Rightarrow> (node \<Rightarrow> bool) \<Rightarrow> (node \<times> node) list \<Rightarrow> node option" where
  "last_value src key P pairs =
     map_option snd (find (\<lambda>kv. key_name (fst kv) src = Some key \<and> P (snd kv)) (rev pairs))"

definition string_field :: "bytes \<Rightarrow> pystr \<Rightarrow> node \<Rightarrow> pystr" where
  "string_field src key el =
     (case last_value src key node_is_string (iter_object_pairs el) of
        None \<Rightarrow> [] | Some v \<Rightarrow> unquote (get_text v src))"

text \<open>Last write wins: the record of an id in the last of the listed files that exists and
  holds a record with that id.\<close>

fun last_found ::
  "(bytes \<Rightarrow> node) \<Rightarrow> (pystr \<Rightarrow> bytes option) \<Rightarrow> pystr list \<Rightarrow> pystr \<Rightarrow> protocol option" where
  "last_found parse files [] pid = None"
| "last_found parse files (fname # rest) pid =
     (case last_found parse files rest pid of
        Some r \<Rightarrow> Some r
      | None \<Rightarrow> (case files fname of
                   None \<Rightarrow> None
                 | Some src \<Rightarrow> map_of (parse_file_ts parse src fname) pid))"

section \<open>Example inputs\<close>





text \<open>An object literal whose id and whose third oracle hold a byte that is not valid UTF-8, with a non-string oracle, and with breakdown elements that lack a name, lack both fields, or are not objects.\<close>

definition example_record_src :: bytes where
  "example_record_src = ''{id:\"p'' @ [CHR 0xFF] @ ''1\",oracles:[\"b\",\"a\",\"a'' @ [CHR 0xFF] @ ''\",1],oraclesBreakdown:[{name:\"N\",type:\"t\"},{type:\"x\"},{},3]}''"

definition example_record_object :: node where
  "example_record_object =
     Node ''object'' True None 0 90
       [Node ''{'' False None 0 1 [],
        Node ''pair'' True None 1 9
          [Node ''property_identifier'' True (Some ''key'') 1 3 [],
           Node '':'' False None 3 4 [],
           Node ''string'' True (Some ''value'') 4 9 []],
        Node '','' False None 9 10 [],
        Node ''pair'' True None 10 34
          [Node ''property_identifier'' True (Some ''key'') 10 17 [],
           Node '':'' False None 17 18 [],
           Node ''array'' True (Some ''value'') 18 34
             [Node ''['' False None 18 19 [],
              Node ''string'' True None 19 22 [],
              Node '','' False None 22 23 [],
              Node ''string'' True None 23 26 [],
              Node '','' False None 26 27 [],
              Node ''string'' True None 27 31 [],
              Node '','' False None 31 32 [],
              Node ''number'' True None 32 33 [],
              Node '']'' False None 33 34 []]],
        Node '','' False None 34 35 [],
        Node ''pair'' True None 35 89
          [Node ''property_identifier'' True (Some ''key'') 35 51 [],
           Node '':'' False None 51 52 [],
           Node ''array'' True (Some ''value'') 52 89
             [Node ''['' False None 52 53 [],
              Node ''object'' True None 53 72
                [Node ''{'' False None 53 54 [],
                 Node ''pair'' True None 54 62
                   [Node ''property_identifier'' True (Some ''key'') 54 58 [],
                    Node '':'' False None 58 59 [],
                    Node ''string'' True (Some ''value'') 59 62 []],
                 Node '','' False None 62 63 [],
                 Node ''pair'' True None 63 71
                   [Node ''property_identifier'' True (Some ''key'') 63 67 [],
                    Node '':'' False None 67 68 [],
                    Node ''string'' True (Some ''value'') 68 71 []],
                 Node ''}'' False None 71 72 []],
              Node '','' False None 72 73 [],
              Node ''object'' True None 73 83
                [Node ''{'' False None 73 74 [],
                 Node ''pair'' True None 74 82
                   [Node ''property_identifier'' True (Some ''key'') 74 78 [],
                    Node '':'' False None 78 79 [],
                    Node ''string'' True (Some ''value'') 79 82 []],
                 Node ''}'' False None 82 83 []],
              Node '','' False None 83 84 [],
              Node ''object'' True None 84 86
                [Node ''{'' False None 84 85 [],
                 Node ''}'' False None 85 86 []],
              Node '','' False None 86 87 [],
              Node ''number'' True None 87 88 [],
              Node '']'' False None 88 89 []]],
        Node ''}'' False None 89 90 []]"

text \<open>Two file contents that hold a record with the same id once the invalid byte in the first is ignored, with their trees.\<close>

definition example_file_a_src :: bytes where
  "example_file_a_src = ''[{id:\"p'' @ [CHR 0xFF] @ ''1\",oracles:[\"a\"]}]''"

definition example_file_a_tree :: node where
  "example_file_a_tree =
     Node ''program'' True None 0 26
       [Node ''expression_statement'' True None 0 26
          [Node ''array'' True None 0 26
             [Node ''['' False None 0 1 [],
              Node ''object'' True None 1 25
                [Node ''{'' False None 1 2 [],
                 Node ''pair'' True None 2 10
                   [Node ''property_identifier'' True (Some ''key'') 2 4 [],
                    Node '':'' False None 4 5 [],
                    Node ''string'' True (Some ''value'') 5 10 []],
                 Node '','' False None 10 11 [],
                 Node ''pair'' True None 11 24
                   [Node ''property_identifier'' True (Some ''key'') 11 18 [],
                    Node '':'' False None 18 19 [],
                    Node ''array'' True (Some ''value'') 19 24
                      [Node ''['' False None 19 20 [],
                       Node ''string'' True None 20 23 [],
                       Node '']'' False None 23 24 []]],
                 Node ''}'' False None 24 25 []],
              Node '']'' False None 25 26 []]]]"

definition example_file_b_src :: bytes where
  "example_file_b_src = ''[{id:\"p1\",oracles:[\"b\"]}]''"

definition example_file_b_tree :: node where
  "example_file_b_tree =
     Node ''program'' True None 0 25
       [Node ''expression_statement'' True None 0 25
          [Node ''array'' True None 0 25
             [Node ''['' False None 0 1 [],
              Node ''object'' True None 1 24
                [Node ''{'' False None 1 2 [],
                 Node ''pair'' True None 2 9
                   [Node ''property_identifier'' True (Some ''key'') 2 4 [],
                    Node '':'' False None 4 5 [],
                    Node ''string'' True (Some ''value'') 5 9 []],
                 Node '','' False None 9 10 [],
                 Node ''pair'' True None 10 23
                   [Node ''property_identifier'' True (Some ''key'') 10 17 [],
                    Node '':'' False None 17 18 [],
                    Node ''array'' True (Some ''value'') 18 23
                      [Node ''['' False None 18 19 [],
                       Node ''string'' True None 19 22 [],
                       Node '']'' False None 22 23 []]],
                 Node ''}'' False None 23 24 []],
              Node '']'' False None 24 25 []]]]"

text \<open>A parser that knows the two example files, and a data root in which only
  \<^verbatim>\<open>data.ts\<close> and \<^verbatim>\<open>data2.ts\<close> exist.\<close>

definition example_parse :: "bytes \<Rightarrow> node" where
  "example_parse src =
     (if src = example_file_a_src then example_file_a_tree
      else if src = example_file_b_src then example_file_b_tree
      else Node ''program'' True None 0 (length src) [])"

definition example_files :: "pystr \<Rightarrow> bytes option" where
  "example_files fname =
     (if fname = lit ''data.ts'' then Some example_file_a_src
      else if fname = lit ''data2.ts'' then Some example_file_b_src
      else None)"

section \<open>Literals\<close>

lemma lit_eq_iff [simp]: "lit a = lit b \<longleftrightarrow> a = b"
proof -
  have "inj (of_char :: char \<Rightarrow> int)"
    by (rule injI) simp
  then show ?thesis
    by (simp add: lit_def inj_map_eq_map)
qed

lemma lit_Nil_iff [simp]: "lit a = [] \<longleftrightarrow> a = []" "[] = lit a \<longleftrightarrow> a = []"
  by (auto simp: lit_def)

section \<open>Properties of the diff\<close>

lemma diff_loop_mem:
  "c \<in> set (diff_loop prev nxt pids acc) \<longleftrightarrow>
     c \<in> set acc \<or>
     (\<exists>pid \<in> set pids. \<exists>a b. map_of prev pid = Some a \<and> map_of nxt pid = Some b
         \<and> diff_entry pid a b = Some c)"
  by (induction pids arbitrary: acc) (auto split: option.splits)

lemma diff_entry_id: "diff_entry pid a b = Some c \<Longrightarrow> c_id c = pid"
  by (auto simp: diff_entry_def Let_def split: if_splits)

lemma diff_states_mem:
  "c \<in> set (diff_states prev nxt) \<longleftrightarrow>
     (\<exists>a b. map_of prev (c_id c) = Some a \<and> map_of nxt (c_id c) = Some b
         \<and> diff_entry (c_id c) a b = Some c)"
proof
  assume "c \<in> set (diff_states prev nxt)"
  then obtain pid a b where h: "map_of prev pid = Some a" "map_of nxt pid = Some b"
      "diff_entry pid a b = Some c"
    unfolding diff_states_def diff_loop_mem by auto
  from h(3) have "c_id c = pid" by (rule diff_entry_id)
  with h show "\<exists>a b. map_of prev (c_id c) = Some a \<and> map_of nxt (c_id c) = Some b
         \<and> diff_entry (c_id c) a b = Some c" by auto
next
  assume "\<exists>a b. map_of prev (c_id c) = Some a \<and> map_of nxt (c_id c) = Some b
         \<and> diff_entry (c_id c) a b = Some c"
  then obtain a b where h: "map_of prev (c_id c) = Some a" "map_of nxt (c_id c) = Some b"
      "diff_entry (c_id c) a b = Some c" by auto
  from h(1) have "c_id c \<in> set (map fst prev)"
    by (metis map_of_eq_None_iff option.distinct(1) set_map)
  then have "c_id c \<in> set (sorted_list_of_set (set (map fst prev) \<union> set (map fst nxt)))"
    by simp
  with h show "c \<in> set (diff_states prev nxt)"
    unfolding diff_states_def diff_loop_mem by blast
qed

lemma keys_fold_update:
  "fst ` set (fold (\<lambda>x d. AList.update (f x) (g x) d) xs d0) = f ` set xs \<union> fst ` set d0"
  by (induction xs arbitrary: d0) (auto simp: dom_update)

lemma keys_breakdown_name_to_type:
  "set (map fst (breakdown_name_to_type lst)) = breakdown_names lst"
  by (auto simp: breakdown_name_to_type_def breakdown_names_def keys_fold_update)

lemma diff_entry_same: "diff_entry pid a a = None"
  by (simp add: diff_entry_def Let_def)

lemma diff_loop_same: "diff_loop D D pids acc = acc"
  by (induction pids arbitrary: acc) (auto simp: diff_entry_same split: option.splits)

lemma dropWhile_rev_dropWhile:
  "dropWhile P (rev (dropWhile P (rev (dropWhile P s)))) = rev (dropWhile P (rev (dropWhile P s)))"
proof -
  define t where "t = dropWhile P s"
  define u where "u = dropWhile P (rev t)"
  show ?thesis
  proof (cases "u = []")
    case True
    then have "dropWhile P (rev (dropWhile P s)) = []" by (simp only: u_def t_def)
    then show ?thesis by (simp only: rev.simps dropWhile.simps)
  next
    case False
    then have "rev t \<noteq> []" by (auto simp: u_def)
    then have tne: "t \<noteq> []" by simp
    then have nP: "\<not> P (hd t)" unfolding t_def by (simp add: hd_dropWhile)
    obtain ys where "rev t = ys @ u" unfolding u_def
      by (metis takeWhile_dropWhile_id)
    then have "last u = last (rev t)" using False by simp
    then have "hd (rev u) = hd t" using False tne by (simp add: hd_rev last_rev)
    with nP False have "dropWhile P (rev u) = rev u"
      by (cases "rev u") auto
    then show ?thesis by (simp add: t_def u_def)
  qed
qed

lemma strip_idem: "strip (strip s) = strip s"
proof -
  have "dropWhile isspace (strip s) = strip s"
    unfolding strip_def by (rule dropWhile_rev_dropWhile)
  then show ?thesis
    by (simp add: strip_def[of "strip s"]) (simp add: strip_def)
qed

lemma finite_breakdown_names: "finite (breakdown_names lst)"
  by (simp add: breakdown_names_def)


lemma diff_entry_plus:
  "diff_entry pid a b = Some c \<Longrightarrow>
     c_plus c = sorted_list_of_set ((set (oracles b) - set (oracles a)) \<union>
        (breakdown_names (oraclesBreakdown b) - breakdown_names (oraclesBreakdown a)))"
  by (auto simp: diff_entry_def Let_def keys_breakdown_name_to_type[simplified] finite_breakdown_names Un_commute split: if_splits)

lemma diff_entry_minus:
  "diff_entry pid a b = Some c \<Longrightarrow>
     c_minus c = sorted_list_of_set ((set (oracles a) - set (oracles b)) \<union>
        (breakdown_names (oraclesBreakdown a) - breakdown_names (oraclesBreakdown b)))"
  by (auto simp: diff_entry_def Let_def keys_breakdown_name_to_type[simplified] finite_breakdown_names Un_commute split: if_splits)

lemma diff_entry_types:
  "diff_entry pid a b = Some c \<Longrightarrow>
     c_types c = 
       map (\<lambda>n. (n, the (map_of (breakdown_name_to_type (oraclesBreakdown a)) n),
                    the (map_of (breakdown_name_to_type (oraclesBreakdown b)) n)))
         (filter (\<lambda>n. the (map_of (breakdown_name_to_type (oraclesBreakdown a)) n)
                     \<noteq> the (map_of (breakdown_name_to_type (oraclesBreakdown b)) n))
            (sorted_list_of_set (breakdown_names (oraclesBreakdown a) \<inter> breakdown_names (oraclesBreakdown b))))"
  by (auto simp: diff_entry_def Let_def keys_breakdown_name_to_type[simplified] finite_breakdown_names split: if_splits)


lemma map_of_breakdown_dom:
  "map_of (breakdown_name_to_type lst) n \<noteq> None \<longleftrightarrow> n \<in> breakdown_names lst"
  using keys_breakdown_name_to_type[of lst] by (simp add: map_of_eq_None_iff)

lemma diff_entry_types_set:
  assumes "diff_entry pid a b = Some c"
  shows "set (c_types c) =
     {(n, old, new). map_of (breakdown_name_to_type (oraclesBreakdown a)) n = Some old
        \<and> map_of (breakdown_name_to_type (oraclesBreakdown b)) n = Some new \<and> old \<noteq> new}"
proof -
  let ?A = "map_of (breakdown_name_to_type (oraclesBreakdown a))"
  let ?B = "map_of (breakdown_name_to_type (oraclesBreakdown b))"
  have dA: "n \<in> breakdown_names (oraclesBreakdown a) \<longleftrightarrow> (\<exists>t. ?A n = Some t)" for n
    using map_of_breakdown_dom[of "oraclesBreakdown a" n] by auto
  have dB: "n \<in> breakdown_names (oraclesBreakdown b) \<longleftrightarrow> (\<exists>t. ?B n = Some t)" for n
    using map_of_breakdown_dom[of "oraclesBreakdown b" n] by auto
  show ?thesis
    unfolding diff_entry_types[OF assms]
    by (auto simp: finite_breakdown_names dA dB)
qed

lemma diff_entry_types_sorted:
  assumes "diff_entry pid a b = Some c"
  shows "sorted (map fst (c_types c)) \<and> distinct (map fst (c_types c))"
  unfolding diff_entry_types[OF assms]
  by (simp add: comp_def sorted_filter[where f="\<lambda>x. x", simplified])

subsection \<open>One record for every shared id that differs\<close>

lemma diff_loop_map_filter:
  "diff_loop prev nxt pids acc =
     acc @ List.map_filter
             (\<lambda>pid. case map_of prev pid of
                      None \<Rightarrow> None
                    | Some a \<Rightarrow> (case map_of nxt pid of None \<Rightarrow> None | Some b \<Rightarrow> diff_entry pid a b))
             pids"
  by (induction pids arbitrary: acc)
     (auto simp: List.map_filter_simps split: option.splits)

lemma filter_map_filter_key:
  assumes "\<And>k c. g k = Some c \<Longrightarrow> f c = k" and "distinct ks"
  shows "filter (\<lambda>c. f c = pid) (List.map_filter g ks) =
           (if pid \<in> set ks then (case g pid of None \<Rightarrow> [] | Some c \<Rightarrow> [c]) else [])"
  using assms(2)
proof (induction ks)
  case Nil
  show ?case by (simp add: List.map_filter_simps)
next
  case (Cons k ks)
  then have IH: "filter (\<lambda>c. f c = pid) (List.map_filter g ks) =
           (if pid \<in> set ks then (case g pid of None \<Rightarrow> [] | Some c \<Rightarrow> [c]) else [])"
    and nk: "k \<notin> set ks" by simp_all
  show ?case
  proof (cases "g k")
    case None
    with IH nk show ?thesis by (auto simp: List.map_filter_simps)
  next
    case (Some c)
    with assms(1) have "f c = k" by simp
    with Some IH nk show ?thesis by (auto simp: List.map_filter_simps)
  qed
qed

lemma diff_states_filter:
  assumes "map_of prev pid = Some a" and "map_of nxt pid = Some b"
  shows "filter (\<lambda>c. c_id c = pid) (diff_states prev nxt) =
           (case diff_entry pid a b of None \<Rightarrow> [] | Some c \<Rightarrow> [c])"
proof -
  let ?g = "\<lambda>pid. case map_of prev pid of
                      None \<Rightarrow> None
                    | Some a \<Rightarrow> (case map_of nxt pid of None \<Rightarrow> None | Some b \<Rightarrow> diff_entry pid a b)"
  let ?ks = "sorted_list_of_set (set (map fst prev) \<union> set (map fst nxt))"
  have g: "\<And>k c. ?g k = Some c \<Longrightarrow> c_id c = k"
    by (auto split: option.splits dest: diff_entry_id)
  have d: "distinct ?ks" by simp
  from assms(1) have "pid \<in> set (map fst prev)"
    by (metis map_of_eq_None_iff option.distinct(1) set_map)
  then have m: "pid \<in> set ?ks" by simp
  have "filter (\<lambda>c. c_id c = pid) (diff_states prev nxt) =
      filter (\<lambda>c. c_id c = pid) (List.map_filter ?g ?ks)"
    by (simp add: diff_states_def diff_loop_map_filter)
  also have "\<dots> = (if pid \<in> set ?ks then (case ?g pid of None \<Rightarrow> [] | Some c \<Rightarrow> [c]) else [])"
    by (rule filter_map_filter_key[where f = c_id, OF g d])
  also have "\<dots> = (case diff_entry pid a b of None \<Rightarrow> [] | Some c \<Rightarrow> [c])"
    using m assms by simp
  finally show ?thesis .
qed

lemma diff_entry_Some_nonempty:
  assumes "diff_entry pid a b = Some c"
  shows "c_plus c \<noteq> [] \<or> c_minus c \<noteq> [] \<or> c_types c \<noteq> []"
proof -
  define a_bt where "a_bt = breakdown_name_to_type (oraclesBreakdown a)"
  define b_bt where "b_bt = breakdown_name_to_type (oraclesBreakdown b)"
  define T where "T = map (\<lambda>n. (n, the (map_of a_bt n), the (map_of b_bt n)))
              (filter (\<lambda>n. the (map_of a_bt n) \<noteq> the (map_of b_bt n))
                 (sorted_list_of_set (set (map fst a_bt) \<inter> set (map fst b_bt))))"
  define P where "P = sorted_list_of_set
      (set (sorted_list_of_set (set (map fst b_bt) - set (map fst a_bt))) \<union> (set (oracles b) - set (oracles a)))"
  define M where "M = sorted_list_of_set
      (set (sorted_list_of_set (set (map fst a_bt) - set (map fst b_bt))) \<union> (set (oracles a) - set (oracles b)))"
  have "diff_entry pid a b =
      (if P \<noteq> [] \<or> M \<noteq> [] \<or> T \<noteq> []
       then Some \<lparr> c_id = pid, c_name = (if p_name b \<noteq> [] then p_name b else p_name a),
                   c_file = p_file b, c_plus = P, c_minus = M, c_types = T \<rparr>
       else None)"
    unfolding diff_entry_def Let_def P_def M_def T_def a_bt_def b_bt_def ..
  with assms show ?thesis by (auto split: if_splits)
qed

lemma diff_entry_None_iff:
  "diff_entry pid a b = None \<longleftrightarrow>
     (set (oracles b) - set (oracles a)) \<union>
        (breakdown_names (oraclesBreakdown b) - breakdown_names (oraclesBreakdown a)) = {}
     \<and> (set (oracles a) - set (oracles b)) \<union>
        (breakdown_names (oraclesBreakdown a) - breakdown_names (oraclesBreakdown b)) = {}
     \<and> {(n, old, new). map_of (breakdown_name_to_type (oraclesBreakdown a)) n = Some old
          \<and> map_of (breakdown_name_to_type (oraclesBreakdown b)) n = Some new \<and> old \<noteq> new} = {}"
proof (cases "diff_entry pid a b")
  case None
  let ?A = "map_of (breakdown_name_to_type (oraclesBreakdown a))"
  let ?B = "map_of (breakdown_name_to_type (oraclesBreakdown b))"
  have dA: "n \<in> breakdown_names (oraclesBreakdown a) \<longleftrightarrow> (\<exists>t. ?A n = Some t)" for n
    using map_of_breakdown_dom[of "oraclesBreakdown a" n] by auto
  have dB: "n \<in> breakdown_names (oraclesBreakdown b) \<longleftrightarrow> (\<exists>t. ?B n = Some t)" for n
    using map_of_breakdown_dom[of "oraclesBreakdown b" n] by auto
  from None have e:
    "sorted_list_of_set ((breakdown_names (oraclesBreakdown b) - breakdown_names (oraclesBreakdown a))
        \<union> (set (oracles b) - set (oracles a))) = []"
    "sorted_list_of_set ((breakdown_names (oraclesBreakdown a) - breakdown_names (oraclesBreakdown b))
        \<union> (set (oracles a) - set (oracles b))) = []"
    "filter (\<lambda>n. the (?A n) \<noteq> the (?B n))
        (sorted_list_of_set (breakdown_names (oraclesBreakdown a) \<inter> breakdown_names (oraclesBreakdown b))) = []"
    by (simp_all add: diff_entry_def Let_def keys_breakdown_name_to_type[simplified] finite_breakdown_names
        split: if_splits)
  from e(1) have p: "(set (oracles b) - set (oracles a)) \<union>
        (breakdown_names (oraclesBreakdown b) - breakdown_names (oraclesBreakdown a)) = {}"
    by (simp add: sorted_list_of_set_eq_Nil_iff finite_breakdown_names Un_commute)
  from e(2) have q: "(set (oracles a) - set (oracles b)) \<union>
        (breakdown_names (oraclesBreakdown a) - breakdown_names (oraclesBreakdown b)) = {}"
    by (simp add: sorted_list_of_set_eq_Nil_iff finite_breakdown_names Un_commute)
  from e(3) have "\<forall>n \<in> breakdown_names (oraclesBreakdown a) \<inter> breakdown_names (oraclesBreakdown b).
      the (?A n) = the (?B n)"
    by (simp add: filter_empty_conv finite_breakdown_names)
  then have eq: "the (?A n) = the (?B n)"
    if "n \<in> breakdown_names (oraclesBreakdown a)" "n \<in> breakdown_names (oraclesBreakdown b)" for n
    using that by blast
  have t: "{(n, old, new). ?A n = Some old \<and> ?B n = Some new \<and> old \<noteq> new} = {}"
  proof -
    have False if "?A n = Some old" "?B n = Some new" "old \<noteq> new" for n old new
    proof -
      from that(1) have "n \<in> breakdown_names (oraclesBreakdown a)" using dA by blast
      moreover from that(2) have "n \<in> breakdown_names (oraclesBreakdown b)" using dB by blast
      ultimately have "the (?A n) = the (?B n)" by (rule eq)
      with that show False by simp
    qed
    then show ?thesis by blast
  qed
  from None p q t show ?thesis by simp
next
  case (Some c)
  have "c_plus c \<noteq> [] \<or> c_minus c \<noteq> [] \<or> c_types c \<noteq> []"
    by (rule diff_entry_Some_nonempty[OF Some])
  then have "set (c_plus c) \<noteq> {} \<or> set (c_minus c) \<noteq> {} \<or> set (c_types c) \<noteq> {}"
    by simp
  then show ?thesis
    unfolding diff_entry_plus[OF Some] diff_entry_minus[OF Some] diff_entry_types_set[OF Some]
    using Some by (simp add: finite_breakdown_names)
qed

subsection \<open>C1: overlap of plus and minus\<close>

text \<open>
  C1, as stated, fails. A protocol whose previous record lists Chainlink only in
  \<^verbatim>\<open>oraclesBreakdown\<close> and whose new record lists it only in \<^verbatim>\<open>oracles\<close> is
  present on both sides, and the change record emitted for it has Chainlink both in
  \<open>plus\<close> (added to the flat list) and in \<open>minus\<close> (removed from the breakdown names).
\<close>

theorem plus_minus_overlap_counterexample:
  "diff_states
     [(lit ''p1'', \<lparr> p_id = lit ''p1'', p_name = lit ''P'', p_file = lit ''data.ts'', oracles = [],
                oraclesBreakdown = [\<lparr> b_name = lit ''Chainlink'', b_type = lit ''primary'' \<rparr>] \<rparr>)]
     [(lit ''p1'', \<lparr> p_id = lit ''p1'', p_name = lit ''P'', p_file = lit ''data.ts'', oracles = [lit ''Chainlink''],
                oraclesBreakdown = [] \<rparr>)]
   = [\<lparr> c_id = lit ''p1'', c_name = lit ''P'', c_file = lit ''data.ts'',
        c_plus = [lit ''Chainlink''], c_minus = [lit ''Chainlink''], c_types = [] \<rparr>]"
  by code_simp

text \<open>
  C1, amended. For an id present in both datasets, the names that the change record has
  both in \<open>plus\<close> and in \<open>minus\<close> are exactly the names that moved between the flat
  \<^verbatim>\<open>oracles\<close> list and the breakdown names: added to one and removed from the other.
  The two flat differences are disjoint from each other, and so are the two breakdown-name
  differences.
\<close>

theorem plus_minus_overlap:
  assumes "c \<in> set (diff_states prev nxt)"
    and "map_of prev (c_id c) = Some a" and "map_of nxt (c_id c) = Some b"
  shows "set (c_plus c) \<inter> set (c_minus c) =
     ((set (oracles b) - set (oracles a)) \<inter>
        (breakdown_names (oraclesBreakdown a) - breakdown_names (oraclesBreakdown b))) \<union>
     ((set (oracles a) - set (oracles b)) \<inter>
        (breakdown_names (oraclesBreakdown b) - breakdown_names (oraclesBreakdown a)))"
proof -
  from assms have e: "diff_entry (c_id c) a b = Some c"
    by (auto simp: diff_states_mem)
  show ?thesis
    unfolding diff_entry_plus[OF e] diff_entry_minus[OF e]
    by (auto simp: finite_breakdown_names)
qed

text \<open>The amended C1 at a previous record whose breakdown names X followed by a no-break
  space and a new record that lists X in \<^verbatim>\<open>oracles\<close>: the stripped breakdown name is X,
  and X is in \<open>plus\<close> and in \<open>minus\<close>.\<close>

theorem plus_minus_overlap_witness:
  "\<lparr> c_id = lit ''p1'', c_name = lit ''P'', c_file = lit ''data.ts'',
        c_plus = [lit ''X''], c_minus = [lit ''X''], c_types = [] \<rparr>
     \<in> set (diff_states
         [(lit ''p1'', \<lparr> p_id = lit ''p1'', p_name = lit ''P'', p_file = lit ''data.ts'', oracles = [],
                oraclesBreakdown = [\<lparr> b_name = lit ''X'' @ [0xA0], b_type = lit ''primary'' \<rparr>] \<rparr>)]
         [(lit ''p1'', \<lparr> p_id = lit ''p1'', p_name = lit ''P'', p_file = lit ''data.ts'', oracles = [lit ''X''],
                oraclesBreakdown = [] \<rparr>)])
   \<and> set [lit ''X''] \<inter> set [lit ''X''] =
      ((set [lit ''X''] - set []) \<inter>
        (breakdown_names [\<lparr> b_name = lit ''X'' @ [0xA0], b_type = lit ''primary'' \<rparr>] - breakdown_names [])) \<union>
      ((set [] - set [lit ''X'']) \<inter>
        (breakdown_names [] - breakdown_names [\<lparr> b_name = lit ''X'' @ [0xA0], b_type = lit ''primary'' \<rparr>]))"
proof -
  let ?a = "\<lparr> p_id = lit ''p1'', p_name = lit ''P'', p_file = lit ''data.ts'', oracles = [],
                oraclesBreakdown = [\<lparr> b_name = lit ''X'' @ [0xA0], b_type = lit ''primary'' \<rparr>] \<rparr>"
  let ?b = "\<lparr> p_id = lit ''p1'', p_name = lit ''P'', p_file = lit ''data.ts'', oracles = [lit ''X''],
                oraclesBreakdown = [] \<rparr>"
  let ?c = "\<lparr> c_id = lit ''p1'', c_name = lit ''P'', c_file = lit ''data.ts'',
        c_plus = [lit ''X''], c_minus = [lit ''X''], c_types = [] \<rparr>"
  have m: "?c \<in> set (diff_states [(lit ''p1'', ?a)] [(lit ''p1'', ?b)])"
    by code_simp
  have pa: "map_of [(lit ''p1'', ?a)] (c_id ?c) = Some ?a" by simp
  have pb: "map_of [(lit ''p1'', ?b)] (c_id ?c) = Some ?b" by simp
  note r = plus_minus_overlap[OF m pa pb]
  from r have s: "set [lit ''X''] \<inter> set [lit ''X''] =
      ((set [lit ''X''] - set []) \<inter>
        (breakdown_names [\<lparr> b_name = lit ''X'' @ [0xA0], b_type = lit ''primary'' \<rparr>] - breakdown_names [])) \<union>
      ((set [] - set [lit ''X'']) \<inter>
        (breakdown_names [] - breakdown_names [\<lparr> b_name = lit ''X'' @ [0xA0], b_type = lit ''primary'' \<rparr>]))"
    by (simp only: change.simps protocol.simps)
  from m s show ?thesis by (rule conjI)
qed

subsection \<open>C2: a dataset against itself\<close>

text \<open>C2. Diffing a dataset against itself yields the empty change-set, for every
  dataset.\<close>

theorem diff_self_empty: "diff_states D D = []"
  by (simp add: diff_states_def diff_loop_same)

subsection \<open>C3: ids on one side only\<close>

text \<open>
  C3. An id that is missing from the previous or from the new dataset gets no change
  record, whatever the record on the other side holds: additions and removals of whole
  records are not reported.
\<close>

theorem diff_skips_unshared_ids:
  assumes "map_of prev pid = None \<or> map_of nxt pid = None"
  shows "\<forall>c \<in> set (diff_states prev nxt). c_id c \<noteq> pid"
  using assms by (auto simp: diff_states_mem)

lemma not_in_imageI: "\<forall>c \<in> S. f c \<noteq> x \<Longrightarrow> x \<notin> f ` S"
  by auto

text \<open>C3 at Scenario D: a brand-new protocol with oracles, absent from the previous
  dataset.\<close>

theorem diff_skips_unshared_ids_witness:
  "map_of ([] :: dataset) (lit ''p2'') = None
   \<and> (lit ''p2'') \<notin> c_id ` set (diff_states []
          [(lit ''p2'', \<lparr> p_id = lit ''p2'', p_name = lit ''New'', p_file = lit ''data3.ts'',
                      oracles = [lit ''Chainlink'', lit ''Pyth''],
                      oraclesBreakdown = [\<lparr> b_name = lit ''Pyth'', b_type = lit ''primary'' \<rparr>] \<rparr>)])"
  (is "?h \<and> (lit ''p2'') \<notin> c_id ` set (diff_states [] ?N)")
proof -
  have h: ?h by simp
  then have "?h \<or> map_of ?N (lit ''p2'') = None" by (rule disjI1)
  then have "\<forall>c \<in> set (diff_states [] ?N). c_id c \<noteq> (lit ''p2'')"
    by (rule diff_skips_unshared_ids)
  then have "(lit ''p2'') \<notin> c_id ` set (diff_states [] ?N)" by (rule not_in_imageI)
  with h show ?thesis by (rule conjI)
qed

subsection \<open>C4: what plus and minus hold\<close>

text \<open>
  C4. For an id present in both datasets, \<open>plus\<close> of its change record is the sorted
  union of the oracles of the new record that the previous one lacks with the breakdown
  names newly present, and \<open>minus\<close> is the sorted union of the oracles of the previous
  record that the new one lacks with the breakdown names newly absent. Every id present in
  both datasets for which one of the two unions or the set of type changes is non-empty
  has exactly one change record, and that record holds these two lists and these type
  changes. Scenario A: diffing \<^verbatim>\<open>{p1: oracles=[a,b]}\<close> against
  \<^verbatim>\<open>{p1: oracles=[b,c]}\<close> yields exactly one change record, for p1, with
  \<open>plus = [c]\<close> and \<open>minus = [a]\<close>.
\<close>

theorem plus_minus_sorted_union:
  "(c \<in> set (diff_states prev nxt) \<and> map_of prev (c_id c) = Some a \<and> map_of nxt (c_id c) = Some b
     \<longrightarrow> c_plus c = sorted_list_of_set ((set (oracles b) - set (oracles a)) \<union>
                  (breakdown_names (oraclesBreakdown b) - breakdown_names (oraclesBreakdown a)))
       \<and> c_minus c = sorted_list_of_set ((set (oracles a) - set (oracles b)) \<union>
                  (breakdown_names (oraclesBreakdown a) - breakdown_names (oraclesBreakdown b))))
   \<and> (map_of prev pid = Some a \<and> map_of nxt pid = Some b
       \<and> ((set (oracles b) - set (oracles a)) \<union>
             (breakdown_names (oraclesBreakdown b) - breakdown_names (oraclesBreakdown a)) \<noteq> {}
          \<or> (set (oracles a) - set (oracles b)) \<union>
             (breakdown_names (oraclesBreakdown a) - breakdown_names (oraclesBreakdown b)) \<noteq> {}
          \<or> {(n, old, new). map_of (breakdown_name_to_type (oraclesBreakdown a)) n = Some old
               \<and> map_of (breakdown_name_to_type (oraclesBreakdown b)) n = Some new \<and> old \<noteq> new} \<noteq> {})
     \<longrightarrow> (\<exists>c. filter (\<lambda>c. c_id c = pid) (diff_states prev nxt) = [c]
            \<and> c_plus c = sorted_list_of_set ((set (oracles b) - set (oracles a)) \<union>
                  (breakdown_names (oraclesBreakdown b) - breakdown_names (oraclesBreakdown a)))
            \<and> c_minus c = sorted_list_of_set ((set (oracles a) - set (oracles b)) \<union>
                  (breakdown_names (oraclesBreakdown a) - breakdown_names (oraclesBreakdown b)))
            \<and> set (c_types c) = {(n, old, new). map_of (breakdown_name_to_type (oraclesBreakdown a)) n = Some old
               \<and> map_of (breakdown_name_to_type (oraclesBreakdown b)) n = Some new \<and> old \<noteq> new}))
   \<and> diff_states
        [(lit ''p1'', \<lparr> p_id = lit ''p1'', p_name = lit ''P'', p_file = lit ''data.ts'',
                       oracles = [lit ''a'', lit ''b''], oraclesBreakdown = [] \<rparr>)]
        [(lit ''p1'', \<lparr> p_id = lit ''p1'', p_name = lit ''P'', p_file = lit ''data.ts'',
                       oracles = [lit ''b'', lit ''c''], oraclesBreakdown = [] \<rparr>)]
      = [\<lparr> c_id = lit ''p1'', c_name = lit ''P'', c_file = lit ''data.ts'',
           c_plus = [lit ''c''], c_minus = [lit ''a''], c_types = [] \<rparr>]"
proof (intro conjI impI)
  assume h: "c \<in> set (diff_states prev nxt) \<and> map_of prev (c_id c) = Some a \<and> map_of nxt (c_id c) = Some b"
  then have e: "diff_entry (c_id c) a b = Some c"
    by (auto simp: diff_states_mem)
  show "c_plus c = sorted_list_of_set ((set (oracles b) - set (oracles a)) \<union>
                  (breakdown_names (oraclesBreakdown b) - breakdown_names (oraclesBreakdown a)))"
    by (rule diff_entry_plus[OF e])
  show "c_minus c = sorted_list_of_set ((set (oracles a) - set (oracles b)) \<union>
                  (breakdown_names (oraclesBreakdown a) - breakdown_names (oraclesBreakdown b)))"
    by (rule diff_entry_minus[OF e])
next
  assume h: "map_of prev pid = Some a \<and> map_of nxt pid = Some b
       \<and> ((set (oracles b) - set (oracles a)) \<union>
             (breakdown_names (oraclesBreakdown b) - breakdown_names (oraclesBreakdown a)) \<noteq> {}
          \<or> (set (oracles a) - set (oracles b)) \<union>
             (breakdown_names (oraclesBreakdown a) - breakdown_names (oraclesBreakdown b)) \<noteq> {}
          \<or> {(n, old, new). map_of (breakdown_name_to_type (oraclesBreakdown a)) n = Some old
               \<and> map_of (breakdown_name_to_type (oraclesBreakdown b)) n = Some new \<and> old \<noteq> new} \<noteq> {})"
  then have "diff_entry pid a b \<noteq> None"
    unfolding diff_entry_None_iff by blast
  then obtain c where e: "diff_entry pid a b = Some c" by auto
  from h have f: "filter (\<lambda>c. c_id c = pid) (diff_states prev nxt) = [c]"
    by (simp add: diff_states_filter e)
  have ce: "c_id c = pid" by (rule diff_entry_id[OF e])
  have ts: "set (c_types c) = {(n, old, new). map_of (breakdown_name_to_type (oraclesBreakdown a)) n = Some old
               \<and> map_of (breakdown_name_to_type (oraclesBreakdown b)) n = Some new \<and> old \<noteq> new}"
    using diff_entry_types_set[of "c_id c" a b c] e ce by simp
  from f ts diff_entry_plus[OF e] diff_entry_minus[OF e]
  show "\<exists>c. filter (\<lambda>c. c_id c = pid) (diff_states prev nxt) = [c]
            \<and> c_plus c = sorted_list_of_set ((set (oracles b) - set (oracles a)) \<union>
                  (breakdown_names (oraclesBreakdown b) - breakdown_names (oraclesBreakdown a)))
            \<and> c_minus c = sorted_list_of_set ((set (oracles a) - set (oracles b)) \<union>
                  (breakdown_names (oraclesBreakdown a) - breakdown_names (oraclesBreakdown b)))
            \<and> set (c_types c) = {(n, old, new). map_of (breakdown_name_to_type (oraclesBreakdown a)) n = Some old
               \<and> map_of (breakdown_name_to_type (oraclesBreakdown b)) n = Some new \<and> old \<noteq> new}"
    by blast
next
  show "diff_states
        [(lit ''p1'', \<lparr> p_id = lit ''p1'', p_name = lit ''P'', p_file = lit ''data.ts'',
                       oracles = [lit ''a'', lit ''b''], oraclesBreakdown = [] \<rparr>)]
        [(lit ''p1'', \<lparr> p_id = lit ''p1'', p_name = lit ''P'', p_file = lit ''data.ts'',
                       oracles = [lit ''b'', lit ''c''], oraclesBreakdown = [] \<rparr>)]
      = [\<lparr> c_id = lit ''p1'', c_name = lit ''P'', c_file = lit ''data.ts'',
           c_plus = [lit ''c''], c_minus = [lit ''a''], c_types = [] \<rparr>]"
    by code_simp
qed

text \<open>C4 at the second of two shared ids, with records that differ in the flat list and
  in the breakdown, the breakdown name ending in a no-break space.\<close>

theorem plus_minus_sorted_union_witness:
  "\<lparr> c_id = lit ''p2'', c_name = lit ''Q'', c_file = lit ''data1.ts'',
       c_plus = [lit ''Pyth'', lit ''c''], c_minus = [lit ''a''], c_types = [] \<rparr>
     \<in> set (diff_states
        [(lit ''p1'', \<lparr> p_id = lit ''p1'', p_name = lit ''P'', p_file = lit ''data.ts'',
                       oracles = [lit ''x''], oraclesBreakdown = [] \<rparr>),
         (lit ''p2'', \<lparr> p_id = lit ''p2'', p_name = lit ''Q'', p_file = lit ''data1.ts'',
                       oracles = [lit ''a'', lit ''b''], oraclesBreakdown = [] \<rparr>)]
        [(lit ''p1'', \<lparr> p_id = lit ''p1'', p_name = lit ''P'', p_file = lit ''data.ts'',
                       oracles = [lit ''y''], oraclesBreakdown = [] \<rparr>),
         (lit ''p2'', \<lparr> p_id = lit ''p2'', p_name = lit ''Q'', p_file = lit ''data1.ts'',
                       oracles = [lit ''b'', lit ''c''],
                       oraclesBreakdown = [\<lparr> b_name = lit ''Pyth'' @ [0xA0], b_type = lit ''primary'' \<rparr>] \<rparr>)])
   \<and> [lit ''Pyth'', lit ''c''] = sorted_list_of_set ((set [lit ''b'', lit ''c''] - set [lit ''a'', lit ''b'']) \<union>
         (breakdown_names [\<lparr> b_name = lit ''Pyth'' @ [0xA0], b_type = lit ''primary'' \<rparr>] - breakdown_names []))
   \<and> (set [lit ''b'', lit ''c''] - set [lit ''a'', lit ''b'']) \<union>
         (breakdown_names [\<lparr> b_name = lit ''Pyth'' @ [0xA0], b_type = lit ''primary'' \<rparr>] - breakdown_names []) \<noteq> {}
   \<and> (\<exists>c. filter (\<lambda>c. c_id c = lit ''p2'') (diff_states
        [(lit ''p1'', \<lparr> p_id = lit ''p1'', p_name = lit ''P'', p_file = lit ''data.ts'',
                       oracles = [lit ''x''], oraclesBreakdown = [] \<rparr>),
         (lit ''p2'', \<lparr> p_id = lit ''p2'', p_name = lit ''Q'', p_file = lit ''data1.ts'',
                       oracles = [lit ''a'', lit ''b''], oraclesBreakdown = [] \<rparr>)]
        [(lit ''p1'', \<lparr> p_id = lit ''p1'', p_name = lit ''P'', p_file = lit ''data.ts'',
                       oracles = [lit ''y''], oraclesBreakdown = [] \<rparr>),
         (lit ''p2'', \<lparr> p_id = lit ''p2'', p_name = lit ''Q'', p_file = lit ''data1.ts'',
                       oracles = [lit ''b'', lit ''c''],
                       oraclesBreakdown = [\<lparr> b_name = lit ''Pyth'' @ [0xA0], b_type = lit ''primary'' \<rparr>] \<rparr>)]) = [c]
          \<and> c_plus c = sorted_list_of_set ((set [lit ''b'', lit ''c''] - set [lit ''a'', lit ''b'']) \<union>
               (breakdown_names [\<lparr> b_name = lit ''Pyth'' @ [0xA0], b_type = lit ''primary'' \<rparr>] - breakdown_names []))
          \<and> c_minus c = sorted_list_of_set ((set [lit ''a'', lit ''b''] - set [lit ''b'', lit ''c'']) \<union>
               (breakdown_names [] - breakdown_names [\<lparr> b_name = lit ''Pyth'' @ [0xA0], b_type = lit ''primary'' \<rparr>])))"
proof -
  let ?a1 = "\<lparr> p_id = lit ''p1'', p_name = lit ''P'', p_file = lit ''data.ts'',
                       oracles = [lit ''x''], oraclesBreakdown = [] \<rparr>"
  let ?b1 = "\<lparr> p_id = lit ''p1'', p_name = lit ''P'', p_file = lit ''data.ts'',
                       oracles = [lit ''y''], oraclesBreakdown = [] \<rparr>"
  let ?a = "\<lparr> p_id = lit ''p2'', p_name = lit ''Q'', p_file = lit ''data1.ts'',
                       oracles = [lit ''a'', lit ''b''], oraclesBreakdown = [] \<rparr>"
  let ?b = "\<lparr> p_id = lit ''p2'', p_name = lit ''Q'', p_file = lit ''data1.ts'',
                       oracles = [lit ''b'', lit ''c''],
                       oraclesBreakdown = [\<lparr> b_name = lit ''Pyth'' @ [0xA0], b_type = lit ''primary'' \<rparr>] \<rparr>"
  let ?c = "\<lparr> c_id = lit ''p2'', c_name = lit ''Q'', c_file = lit ''data1.ts'',
       c_plus = [lit ''Pyth'', lit ''c''], c_minus = [lit ''a''], c_types = [] \<rparr>"
  let ?prev = "[(lit ''p1'', ?a1), (lit ''p2'', ?a)]"
  let ?nxt = "[(lit ''p1'', ?b1), (lit ''p2'', ?b)]"
  have m: "?c \<in> set (diff_states ?prev ?nxt)"
    by code_simp
  have pa: "map_of ?prev (lit ''p2'') = Some ?a" by simp
  have pb: "map_of ?nxt (lit ''p2'') = Some ?b" by simp
  have pa': "map_of ?prev (c_id ?c) = Some ?a" using pa by simp
  have pb': "map_of ?nxt (c_id ?c) = Some ?b" using pb by simp
  have ne: "(set [lit ''b'', lit ''c''] - set [lit ''a'', lit ''b'']) \<union>
         (breakdown_names [\<lparr> b_name = lit ''Pyth'' @ [0xA0], b_type = lit ''primary'' \<rparr>] - breakdown_names []) \<noteq> {}"
    by simp
  note r1 = plus_minus_sorted_union[where c = ?c and prev = ?prev and nxt = ?nxt and a = ?a and b = ?b,
      THEN conjunct1, THEN mp, OF conjI[OF m conjI[OF pa' pb']], THEN conjunct1]
  have ne': "(set (oracles ?b) - set (oracles ?a)) \<union>
             (breakdown_names (oraclesBreakdown ?b) - breakdown_names (oraclesBreakdown ?a)) \<noteq> {}
          \<or> (set (oracles ?a) - set (oracles ?b)) \<union>
             (breakdown_names (oraclesBreakdown ?a) - breakdown_names (oraclesBreakdown ?b)) \<noteq> {}
          \<or> {(n, old, new). map_of (breakdown_name_to_type (oraclesBreakdown ?a)) n = Some old
               \<and> map_of (breakdown_name_to_type (oraclesBreakdown ?b)) n = Some new \<and> old \<noteq> new} \<noteq> {}"
    using ne by (simp only: protocol.simps simp_thms)
  note r2 = plus_minus_sorted_union[where pid = "lit ''p2''" and prev = ?prev and nxt = ?nxt and a = ?a and b = ?b,
      THEN conjunct2, THEN conjunct1, THEN mp, OF conjI[OF pa conjI[OF pb ne']]]
  from r1 have s1: "[lit ''Pyth'', lit ''c''] = sorted_list_of_set ((set [lit ''b'', lit ''c''] - set [lit ''a'', lit ''b'']) \<union>
         (breakdown_names [\<lparr> b_name = lit ''Pyth'' @ [0xA0], b_type = lit ''primary'' \<rparr>] - breakdown_names []))"
    by (simp only: change.simps protocol.simps)
  from r2 have s2: "\<exists>c. filter (\<lambda>c. c_id c = lit ''p2'') (diff_states ?prev ?nxt) = [c]
          \<and> c_plus c = sorted_list_of_set ((set [lit ''b'', lit ''c''] - set [lit ''a'', lit ''b'']) \<union>
               (breakdown_names [\<lparr> b_name = lit ''Pyth'' @ [0xA0], b_type = lit ''primary'' \<rparr>] - breakdown_names []))
          \<and> c_minus c = sorted_list_of_set ((set [lit ''a'', lit ''b''] - set [lit ''b'', lit ''c'']) \<union>
               (breakdown_names [] - breakdown_names [\<lparr> b_name = lit ''Pyth'' @ [0xA0], b_type = lit ''primary'' \<rparr>]))"
    unfolding protocol.simps by blast
  from m s1 ne s2 show ?thesis by (intro conjI)
qed

subsection \<open>C5: type changes\<close>

text \<open>
  C5. For an id present in both datasets, \<open>types\<close> of its change record holds exactly the
  tuples (name, old type, new type) of the names that both name-to-type maps have with
  different types, one tuple per name, in ascending order of the names. Every id present
  in both datasets whose maps have a name with different types has exactly one change
  record, whose \<open>types\<close> is that list and holds the tuple of that name. Such a name is
  neither a name newly present nor a name newly absent: where it appears in \<open>plus\<close> or
  \<open>minus\<close>, the flat \<^verbatim>\<open>oracles\<close> lists put it there. Scenario C: when the type of the
  breakdown entry Chainlink goes from primary to secondary, the change record has that one
  tuple and empty \<open>plus\<close> and \<open>minus\<close>.
\<close>

theorem type_changes_exact:
  "(c \<in> set (diff_states prev nxt) \<and> map_of prev (c_id c) = Some a \<and> map_of nxt (c_id c) = Some b
     \<longrightarrow> set (c_types c) =
           {(n, old, new). map_of (breakdown_name_to_type (oraclesBreakdown a)) n = Some old
              \<and> map_of (breakdown_name_to_type (oraclesBreakdown b)) n = Some new \<and> old \<noteq> new}
       \<and> sorted (map fst (c_types c)) \<and> distinct (map fst (c_types c))
       \<and> set (c_plus c) \<inter> fst ` set (c_types c) \<subseteq> set (oracles b) - set (oracles a)
       \<and> set (c_minus c) \<inter> fst ` set (c_types c) \<subseteq> set (oracles a) - set (oracles b))
   \<and> (map_of prev pid = Some a \<and> map_of nxt pid = Some b
       \<and> map_of (breakdown_name_to_type (oraclesBreakdown a)) n = Some old
       \<and> map_of (breakdown_name_to_type (oraclesBreakdown b)) n = Some new \<and> old \<noteq> new
     \<longrightarrow> (\<exists>c. filter (\<lambda>c. c_id c = pid) (diff_states prev nxt) = [c]
            \<and> set (c_types c) =
                {(n, old, new). map_of (breakdown_name_to_type (oraclesBreakdown a)) n = Some old
                   \<and> map_of (breakdown_name_to_type (oraclesBreakdown b)) n = Some new \<and> old \<noteq> new}
            \<and> sorted (map fst (c_types c)) \<and> distinct (map fst (c_types c))
            \<and> (n, old, new) \<in> set (c_types c)))
   \<and> diff_states
        [(lit ''p1'', \<lparr> p_id = lit ''p1'', p_name = lit ''P'', p_file = lit ''data.ts'', oracles = [],
                   oraclesBreakdown = [\<lparr> b_name = lit ''Chainlink'', b_type = lit ''primary'' \<rparr>] \<rparr>)]
        [(lit ''p1'', \<lparr> p_id = lit ''p1'', p_name = lit ''P'', p_file = lit ''data.ts'', oracles = [],
                   oraclesBreakdown = [\<lparr> b_name = lit ''Chainlink'', b_type = lit ''secondary'' \<rparr>] \<rparr>)]
      = [\<lparr> c_id = lit ''p1'', c_name = lit ''P'', c_file = lit ''data.ts'',
           c_plus = [], c_minus = [], c_types = [(lit ''Chainlink'', lit ''primary'', lit ''secondary'')] \<rparr>]"
proof (intro conjI impI)
  assume h: "c \<in> set (diff_states prev nxt) \<and> map_of prev (c_id c) = Some a \<and> map_of nxt (c_id c) = Some b"
  then have e: "diff_entry (c_id c) a b = Some c"
    by (auto simp: diff_states_mem)
  let ?A = "map_of (breakdown_name_to_type (oraclesBreakdown a))"
  let ?B = "map_of (breakdown_name_to_type (oraclesBreakdown b))"
  show ts: "set (c_types c) = {(n, old, new). ?A n = Some old \<and> ?B n = Some new \<and> old \<noteq> new}"
    by (rule diff_entry_types_set[OF e])
  show "sorted (map fst (c_types c))" "distinct (map fst (c_types c))"
    using diff_entry_types_sorted[OF e] by simp_all
  have both: "n \<in> breakdown_names (oraclesBreakdown a) \<and> n \<in> breakdown_names (oraclesBreakdown b)"
    if "n \<in> fst ` set (c_types c)" for n
  proof -
    from that ts obtain old new where "?A n = Some old" "?B n = Some new" by auto
    then show ?thesis
      using map_of_breakdown_dom[of "oraclesBreakdown a" n] map_of_breakdown_dom[of "oraclesBreakdown b" n]
      by simp
  qed
  show "set (c_plus c) \<inter> fst ` set (c_types c) \<subseteq> set (oracles b) - set (oracles a)"
    unfolding diff_entry_plus[OF e] using both by (auto simp: finite_breakdown_names)
  show "set (c_minus c) \<inter> fst ` set (c_types c) \<subseteq> set (oracles a) - set (oracles b)"
    unfolding diff_entry_minus[OF e] using both by (auto simp: finite_breakdown_names)
next
  let ?A = "map_of (breakdown_name_to_type (oraclesBreakdown a))"
  let ?B = "map_of (breakdown_name_to_type (oraclesBreakdown b))"
  let ?T = "{(n, old, new). ?A n = Some old \<and> ?B n = Some new \<and> old \<noteq> new}"
  assume h: "map_of prev pid = Some a \<and> map_of nxt pid = Some b
       \<and> ?A n = Some old \<and> ?B n = Some new \<and> old \<noteq> new"
  then have t: "(n, old, new) \<in> ?T" by simp
  then have "?T \<noteq> {}" by blast
  then have "diff_entry pid a b \<noteq> None"
    unfolding diff_entry_None_iff by blast
  then obtain c where e: "diff_entry pid a b = Some c" by auto
  from h have f: "filter (\<lambda>c. c_id c = pid) (diff_states prev nxt) = [c]"
    by (simp add: diff_states_filter e)
  have ce: "c_id c = pid" by (rule diff_entry_id[OF e])
  have ts: "set (c_types c) = ?T"
    using diff_entry_types_set[of "c_id c" a b c] e ce by simp
  have so: "sorted (map fst (c_types c))" "distinct (map fst (c_types c))"
    using diff_entry_types_sorted[OF e] by simp_all
  from f ts t so
  show "\<exists>c. filter (\<lambda>c. c_id c = pid) (diff_states prev nxt) = [c]
            \<and> set (c_types c) = ?T
            \<and> sorted (map fst (c_types c)) \<and> distinct (map fst (c_types c))
            \<and> (n, old, new) \<in> set (c_types c)"
    by blast
next
  show "diff_states
        [(lit ''p1'', \<lparr> p_id = lit ''p1'', p_name = lit ''P'', p_file = lit ''data.ts'', oracles = [],
                   oraclesBreakdown = [\<lparr> b_name = lit ''Chainlink'', b_type = lit ''primary'' \<rparr>] \<rparr>)]
        [(lit ''p1'', \<lparr> p_id = lit ''p1'', p_name = lit ''P'', p_file = lit ''data.ts'', oracles = [],
                   oraclesBreakdown = [\<lparr> b_name = lit ''Chainlink'', b_type = lit ''secondary'' \<rparr>] \<rparr>)]
      = [\<lparr> c_id = lit ''p1'', c_name = lit ''P'', c_file = lit ''data.ts'',
           c_plus = [], c_minus = [], c_types = [(lit ''Chainlink'', lit ''primary'', lit ''secondary'')] \<rparr>]"
    by code_simp
qed

text \<open>C5 at the second of two shared ids, with two type changes, an entry whose type
  differs only by an ideographic space in front, and a name that also enters the flat
  list.\<close>

theorem type_changes_exact_witness:
  "\<lparr> c_id = lit ''p2'', c_name = lit ''Q'', c_file = lit ''data1.ts'', c_plus = [lit ''Pyth''], c_minus = [],
       c_types = [(lit ''Chainlink'', lit ''primary'', lit ''secondary''), (lit ''Pyth'', lit ''a'', lit ''b'')] \<rparr>
     \<in> set (diff_states
        [(lit ''p1'', \<lparr> p_id = lit ''p1'', p_name = lit ''P'', p_file = lit ''data.ts'', oracles = [lit ''x''],
                   oraclesBreakdown = [] \<rparr>),
         (lit ''p2'', \<lparr> p_id = lit ''p2'', p_name = lit ''Q'', p_file = lit ''data1.ts'', oracles = [],
                   oraclesBreakdown = [\<lparr> b_name = lit ''Pyth'', b_type = lit ''a'' \<rparr>,
                                       \<lparr> b_name = lit ''Chainlink'' @ [0xA0], b_type = lit ''primary'' \<rparr>,
                                       \<lparr> b_name = lit ''Same'', b_type = lit ''t'' \<rparr>] \<rparr>)]
        [(lit ''p1'', \<lparr> p_id = lit ''p1'', p_name = lit ''P'', p_file = lit ''data.ts'', oracles = [lit ''y''],
                   oraclesBreakdown = [] \<rparr>),
         (lit ''p2'', \<lparr> p_id = lit ''p2'', p_name = lit ''Q'', p_file = lit ''data1.ts'', oracles = [lit ''Pyth''],
                   oraclesBreakdown = [\<lparr> b_name = lit ''Chainlink'', b_type = lit ''secondary'' \<rparr>,
                                       \<lparr> b_name = lit ''Pyth'', b_type = lit ''b'' \<rparr>,
                                       \<lparr> b_name = lit ''Same'', b_type = 0x3000 # lit ''t'' \<rparr>] \<rparr>)])
   \<and> sorted (map fst [(lit ''Chainlink'', lit ''primary'', lit ''secondary''), (lit ''Pyth'', lit ''a'', lit ''b'')])
   \<and> set [lit ''Pyth''] \<inter> fst ` set [(lit ''Chainlink'', lit ''primary'', lit ''secondary''), (lit ''Pyth'', lit ''a'', lit ''b'')]
       \<subseteq> set [lit ''Pyth''] - set []
   \<and> map_of (breakdown_name_to_type [\<lparr> b_name = lit ''Pyth'', b_type = lit ''a'' \<rparr>,
                                       \<lparr> b_name = lit ''Chainlink'' @ [0xA0], b_type = lit ''primary'' \<rparr>,
                                       \<lparr> b_name = lit ''Same'', b_type = lit ''t'' \<rparr>]) (lit ''Chainlink'')
       = Some (lit ''primary'')
   \<and> map_of (breakdown_name_to_type [\<lparr> b_name = lit ''Chainlink'', b_type = lit ''secondary'' \<rparr>,
                                       \<lparr> b_name = lit ''Pyth'', b_type = lit ''b'' \<rparr>,
                                       \<lparr> b_name = lit ''Same'', b_type = 0x3000 # lit ''t'' \<rparr>]) (lit ''Chainlink'')
       = Some (lit ''secondary'')
   \<and> lit ''primary'' \<noteq> lit ''secondary''
   \<and> (\<exists>c. filter (\<lambda>c. c_id c = lit ''p2'') (diff_states
        [(lit ''p1'', \<lparr> p_id = lit ''p1'', p_name = lit ''P'', p_file = lit ''data.ts'', oracles = [lit ''x''],
                   oraclesBreakdown = [] \<rparr>),
         (lit ''p2'', \<lparr> p_id = lit ''p2'', p_name = lit ''Q'', p_file = lit ''data1.ts'', oracles = [],
                   oraclesBreakdown = [\<lparr> b_name = lit ''Pyth'', b_type = lit ''a'' \<rparr>,
                                       \<lparr> b_name = lit ''Chainlink'' @ [0xA0], b_type = lit ''primary'' \<rparr>,
                                       \<lparr> b_name = lit ''Same'', b_type = lit ''t'' \<rparr>] \<rparr>)]
        [(lit ''p1'', \<lparr> p_id = lit ''p1'', p_name = lit ''P'', p_file = lit ''data.ts'', oracles = [lit ''y''],
                   oraclesBreakdown = [] \<rparr>),
         (lit ''p2'', \<lparr> p_id = lit ''p2'', p_name = lit ''Q'', p_file = lit ''data1.ts'', oracles = [lit ''Pyth''],
                   oraclesBreakdown = [\<lparr> b_name = lit ''Chainlink'', b_type = lit ''secondary'' \<rparr>,
                                       \<lparr> b_name = lit ''Pyth'', b_type = lit ''b'' \<rparr>,
                                       \<lparr> b_name = lit ''Same'', b_type = 0x3000 # lit ''t'' \<rparr>] \<rparr>)]) = [c]
          \<and> (lit ''Chainlink'', lit ''primary'', lit ''secondary'') \<in> set (c_types c))"
proof -
  let ?a1 = "\<lparr> p_id = lit ''p1'', p_name = lit ''P'', p_file = lit ''data.ts'', oracles = [lit ''x''],
                   oraclesBreakdown = [] \<rparr>"
  let ?b1 = "\<lparr> p_id = lit ''p1'', p_name = lit ''P'', p_file = lit ''data.ts'', oracles = [lit ''y''],
                   oraclesBreakdown = [] \<rparr>"
  let ?la = "[\<lparr> b_name = lit ''Pyth'', b_type = lit ''a'' \<rparr>,
                                       \<lparr> b_name = lit ''Chainlink'' @ [0xA0], b_type = lit ''primary'' \<rparr>,
                                       \<lparr> b_name = lit ''Same'', b_type = lit ''t'' \<rparr>]"
  let ?lb = "[\<lparr> b_name = lit ''Chainlink'', b_type = lit ''secondary'' \<rparr>,
                                       \<lparr> b_name = lit ''Pyth'', b_type = lit ''b'' \<rparr>,
                                       \<lparr> b_name = lit ''Same'', b_type = 0x3000 # lit ''t'' \<rparr>]"
  let ?a = "\<lparr> p_id = lit ''p2'', p_name = lit ''Q'', p_file = lit ''data1.ts'', oracles = [],
                   oraclesBreakdown = ?la \<rparr>"
  let ?b = "\<lparr> p_id = lit ''p2'', p_name = lit ''Q'', p_file = lit ''data1.ts'', oracles = [lit ''Pyth''],
                   oraclesBreakdown = ?lb \<rparr>"
  let ?c = "\<lparr> c_id = lit ''p2'', c_name = lit ''Q'', c_file = lit ''data1.ts'', c_plus = [lit ''Pyth''], c_minus = [],
       c_types = [(lit ''Chainlink'', lit ''primary'', lit ''secondary''), (lit ''Pyth'', lit ''a'', lit ''b'')] \<rparr>"
  let ?prev = "[(lit ''p1'', ?a1), (lit ''p2'', ?a)]"
  let ?nxt = "[(lit ''p1'', ?b1), (lit ''p2'', ?b)]"
  have m: "?c \<in> set (diff_states ?prev ?nxt)"
    by code_simp
  have pa: "map_of ?prev (lit ''p2'') = Some ?a" by simp
  have pb: "map_of ?nxt (lit ''p2'') = Some ?b" by simp
  have pa': "map_of ?prev (c_id ?c) = Some ?a" using pa by simp
  have pb': "map_of ?nxt (c_id ?c) = Some ?b" using pb by simp
  have ta: "map_of (breakdown_name_to_type ?la) (lit ''Chainlink'') = Some (lit ''primary'')"
    by code_simp
  have tb: "map_of (breakdown_name_to_type ?lb) (lit ''Chainlink'') = Some (lit ''secondary'')"
    by code_simp
  have ne: "lit ''primary'' \<noteq> lit ''secondary''" by simp
  have ta': "map_of (breakdown_name_to_type (oraclesBreakdown ?a)) (lit ''Chainlink'') = Some (lit ''primary'')"
    using ta by (simp only: protocol.simps)
  have tb': "map_of (breakdown_name_to_type (oraclesBreakdown ?b)) (lit ''Chainlink'') = Some (lit ''secondary'')"
    using tb by (simp only: protocol.simps)
  note r = type_changes_exact[where c = ?c and prev = ?prev and nxt = ?nxt and a = ?a and b = ?b,
      THEN conjunct1, THEN mp, OF conjI[OF m conjI[OF pa' pb']]]
  from r[THEN conjunct2, THEN conjunct1]
  have s: "sorted (map fst [(lit ''Chainlink'', lit ''primary'', lit ''secondary''), (lit ''Pyth'', lit ''a'', lit ''b'')])"
    by (simp only: change.simps)
  from r[THEN conjunct2, THEN conjunct2, THEN conjunct2, THEN conjunct1]
  have p: "set [lit ''Pyth''] \<inter> fst ` set [(lit ''Chainlink'', lit ''primary'', lit ''secondary''), (lit ''Pyth'', lit ''a'', lit ''b'')]
       \<subseteq> set [lit ''Pyth''] - set []"
    by (simp only: change.simps protocol.simps)
  note r2 = type_changes_exact[where pid = "lit ''p2''" and prev = ?prev and nxt = ?nxt and a = ?a and b = ?b
      and n = "lit ''Chainlink''" and old = "lit ''primary''" and new = "lit ''secondary''",
      THEN conjunct2, THEN conjunct1, THEN mp, OF conjI[OF pa conjI[OF pb conjI[OF ta' conjI[OF tb' ne]]]]]
  from r2 have e: "\<exists>c. filter (\<lambda>c. c_id c = lit ''p2'') (diff_states ?prev ?nxt) = [c]
          \<and> (lit ''Chainlink'', lit ''primary'', lit ''secondary'') \<in> set (c_types c)"
    by blast
  from m s p ta tb ne e show ?thesis by (intro conjI)
qed

subsection \<open>The diff sees a breakdown list through its name-to-type map\<close>

lemma breakdown_name_to_type_drop_blank:
  "strip (b_name e) = [] \<Longrightarrow>
     breakdown_name_to_type (xs @ e # ys) = breakdown_name_to_type (xs @ ys)"
  by (simp add: breakdown_name_to_type_def)

lemma breakdown_name_to_type_strip:
  "breakdown_name_to_type (map strip_breakdown lst) = breakdown_name_to_type lst"
  by (simp add: breakdown_name_to_type_def filter_map comp_def strip_breakdown_def strip_idem
      fold_map)

lemma breakdown_name_to_type_visible:
  "breakdown_name_to_type (visible_breakdown lst) = breakdown_name_to_type lst"
  unfolding visible_breakdown_def breakdown_name_to_type_strip
  by (simp add: breakdown_name_to_type_def)

lemma diff_entry_cong:
  assumes "breakdown_name_to_type (oraclesBreakdown a') = breakdown_name_to_type (oraclesBreakdown a)"
    and "breakdown_name_to_type (oraclesBreakdown b') = breakdown_name_to_type (oraclesBreakdown b)"
    and "oracles a' = oracles a" "oracles b' = oracles b"
    and "p_name a' = p_name a" "p_name b' = p_name b" "p_file b' = p_file b"
  shows "diff_entry pid a' b' = diff_entry pid a b"
  by (simp only: diff_entry_def assms)

lemma map_of_with_visible:
  "map_of (with_visible_breakdown d) k =
     map_option (\<lambda>r. r\<lparr> oraclesBreakdown := visible_breakdown (oraclesBreakdown r) \<rparr>) (map_of d k)"
  by (induction d) (auto simp: with_visible_breakdown_def)

lemma keys_with_visible: "map fst (with_visible_breakdown d) = map fst d"
  by (simp add: with_visible_breakdown_def comp_def)

lemma diff_loop_with_visible:
  "diff_loop (with_visible_breakdown prev) (with_visible_breakdown nxt) pids acc
     = diff_loop prev nxt pids acc"
proof (induction pids arbitrary: acc)
  case Nil
  show ?case by simp
next
  case (Cons pid pids)
  have e: "diff_entry pid (a\<lparr> oraclesBreakdown := visible_breakdown (oraclesBreakdown a) \<rparr>)
                          (b\<lparr> oraclesBreakdown := visible_breakdown (oraclesBreakdown b) \<rparr>)
             = diff_entry pid a b" for a b
    by (rule diff_entry_cong) (simp_all add: breakdown_name_to_type_visible)
  show ?case
    by (cases "map_of prev pid"; cases "map_of nxt pid")
       (simp_all add: map_of_with_visible e Cons.IH split: option.splits)
qed

lemma diff_states_with_visible:
  "diff_states (with_visible_breakdown prev) (with_visible_breakdown nxt) = diff_states prev nxt"
  by (simp add: diff_states_def keys_with_visible diff_loop_with_visible)


lemma map_of_breakdown_name_to_type:
  "map_of (breakdown_name_to_type lst) n =
     (if n = [] then None
      else map_option (\<lambda>x. strip (b_type x)) (find (\<lambda>x. strip (b_name x) = n) (rev lst)))"
proof (induction lst rule: rev_induct)
  case Nil
  show ?case by (simp add: breakdown_name_to_type_def)
next
  case (snoc x xs)
  then show ?case
    by (auto simp: breakdown_name_to_type_def update_conv')
qed

lemma distinct_fold_update:
  "distinct (map fst d) \<Longrightarrow>
     distinct (map fst (fold (\<lambda>x d. AList.update (f x) (g x) d) xs d))"
  by (induction xs arbitrary: d) (simp_all add: distinct_update)

lemma distinct_breakdown_name_to_type: "distinct (map fst (breakdown_name_to_type lst))"
  unfolding breakdown_name_to_type_def by (rule distinct_fold_update) simp

lemma keys_breakdown_name_to_type_image:
  "set (map fst (breakdown_name_to_type lst)) =
     (\<lambda>x. strip (b_name x)) ` {x \<in> set lst. strip (b_name x) \<noteq> []}"
  unfolding keys_breakdown_name_to_type breakdown_names_def by auto

subsection \<open>C10: blank names and stripping\<close>

text \<open>
  C10. A breakdown entry whose name is empty or only whitespace contributes nothing to the
  diff: taking it out of the breakdown list of the previous or of the new record leaves
  the result for that pair of records unchanged, whatever its type is. Names and types are
  compared stripped: replacing every dataset by the one whose breakdown lists hold only
  the entries with a non-blank name, name and type stripped, gives the same change-set.
  The name-to-type map itself is pinned down: its keys are the stripped names of the
  entries with a non-blank name, each once, and the value at a key is the stripped type of
  the last entry of the list with that stripped name. Whitespace is what \<^verbatim>\<open>str.strip\<close>
  removes, the no-break space, the em space, the ideographic space and the next-line
  control among it: entries with a blank name and the type primary, added to a record,
  give no change record, and neither do a name and a type that change only in the
  whitespace around them.
\<close>

theorem blank_names_invisible:
  "(strip (b_name e) = [] \<longrightarrow>
      diff_entry pid (a\<lparr> oraclesBreakdown := xs @ e # ys \<rparr>) b
        = diff_entry pid (a\<lparr> oraclesBreakdown := xs @ ys \<rparr>) b
      \<and> diff_entry pid a (b\<lparr> oraclesBreakdown := xs @ e # ys \<rparr>)
        = diff_entry pid a (b\<lparr> oraclesBreakdown := xs @ ys \<rparr>))
   \<and> diff_states (with_visible_breakdown prev) (with_visible_breakdown nxt) = diff_states prev nxt
   \<and> breakdown_name_to_type (map strip_breakdown lst) = breakdown_name_to_type lst
   \<and> set (map fst (breakdown_name_to_type lst)) =
       (\<lambda>x. strip (b_name x)) ` {x \<in> set lst. strip (b_name x) \<noteq> []}
   \<and> distinct (map fst (breakdown_name_to_type lst))
   \<and> map_of (breakdown_name_to_type lst) n =
       (if n = [] then None
        else map_option (\<lambda>x. strip (b_type x)) (find (\<lambda>x. strip (b_name x) = n) (rev lst)))
   \<and> breakdown_name_to_type
        [\<lparr> b_name = 0x2003 # lit ''Pyth'' @ [0xA0], b_type = lit ''primary'' @ [0x85] \<rparr>,
         \<lparr> b_name = [0x20, 0xA0, 0x3000], b_type = lit ''primary'' \<rparr>,
         \<lparr> b_name = lit ''Band'', b_type = [] \<rparr>,
         \<lparr> b_name = lit ''Pyth'', b_type = lit ''fallback'' \<rparr>]
      = [(lit ''Pyth'', lit ''fallback''), (lit ''Band'', [])]
   \<and> diff_states
        [(lit ''p1'', \<lparr> p_id = lit ''p1'', p_name = lit ''P'', p_file = lit ''data.ts'', oracles = [lit ''a''],
                   oraclesBreakdown = [] \<rparr>)]
        [(lit ''p1'', \<lparr> p_id = lit ''p1'', p_name = lit ''P'', p_file = lit ''data.ts'', oracles = [lit ''a''],
                   oraclesBreakdown = [\<lparr> b_name = lit ''  '', b_type = lit ''primary'' \<rparr>,
                                       \<lparr> b_name = [0xA0, 0x3000], b_type = lit ''primary'' \<rparr>] \<rparr>)]
      = []
   \<and> diff_states
        [(lit ''p1'', \<lparr> p_id = lit ''p1'', p_name = lit ''P'', p_file = lit ''data.ts'', oracles = [],
                   oraclesBreakdown = [\<lparr> b_name = lit ''Pyth'' @ [0xA0], b_type = lit ''primary'' \<rparr>] \<rparr>)]
        [(lit ''p1'', \<lparr> p_id = lit ''p1'', p_name = lit ''P'', p_file = lit ''data.ts'', oracles = [],
                   oraclesBreakdown = [\<lparr> b_name = 0x2003 # lit ''Pyth'', b_type = 0x85 # lit ''primary'' \<rparr>] \<rparr>)]
      = []"
proof (intro conjI impI)
  assume h: "strip (b_name e) = []"
  show "diff_entry pid (a\<lparr> oraclesBreakdown := xs @ e # ys \<rparr>) b
        = diff_entry pid (a\<lparr> oraclesBreakdown := xs @ ys \<rparr>) b"
    by (rule diff_entry_cong) (simp_all add: breakdown_name_to_type_drop_blank[OF h])
  show "diff_entry pid a (b\<lparr> oraclesBreakdown := xs @ e # ys \<rparr>)
        = diff_entry pid a (b\<lparr> oraclesBreakdown := xs @ ys \<rparr>)"
    by (rule diff_entry_cong) (simp_all add: breakdown_name_to_type_drop_blank[OF h])
next
  show "diff_states (with_visible_breakdown prev) (with_visible_breakdown nxt) = diff_states prev nxt"
    by (rule diff_states_with_visible)
  show "breakdown_name_to_type (map strip_breakdown lst) = breakdown_name_to_type lst"
    by (rule breakdown_name_to_type_strip)
  show "set (map fst (breakdown_name_to_type lst)) =
       (\<lambda>x. strip (b_name x)) ` {x \<in> set lst. strip (b_name x) \<noteq> []}"
    by (rule keys_breakdown_name_to_type_image)
  show "distinct (map fst (breakdown_name_to_type lst))"
    by (rule distinct_breakdown_name_to_type)
  show "map_of (breakdown_name_to_type lst) n =
       (if n = [] then None
        else map_option (\<lambda>x. strip (b_type x)) (find (\<lambda>x. strip (b_name x) = n) (rev lst)))"
    by (rule map_of_breakdown_name_to_type)
  show "breakdown_name_to_type
        [\<lparr> b_name = 0x2003 # lit ''Pyth'' @ [0xA0], b_type = lit ''primary'' @ [0x85] \<rparr>,
         \<lparr> b_name = [0x20, 0xA0, 0x3000], b_type = lit ''primary'' \<rparr>,
         \<lparr> b_name = lit ''Band'', b_type = [] \<rparr>,
         \<lparr> b_name = lit ''Pyth'', b_type = lit ''fallback'' \<rparr>]
      = [(lit ''Pyth'', lit ''fallback''), (lit ''Band'', [])]"
    by code_simp
  show "diff_states
        [(lit ''p1'', \<lparr> p_id = lit ''p1'', p_name = lit ''P'', p_file = lit ''data.ts'', oracles = [lit ''a''],
                   oraclesBreakdown = [] \<rparr>)]
        [(lit ''p1'', \<lparr> p_id = lit ''p1'', p_name = lit ''P'', p_file = lit ''data.ts'', oracles = [lit ''a''],
                   oraclesBreakdown = [\<lparr> b_name = lit ''  '', b_type = lit ''primary'' \<rparr>,
                                       \<lparr> b_name = [0xA0, 0x3000], b_type = lit ''primary'' \<rparr>] \<rparr>)]
      = []"
    by code_simp
  show "diff_states
        [(lit ''p1'', \<lparr> p_id = lit ''p1'', p_name = lit ''P'', p_file = lit ''data.ts'', oracles = [],
                   oraclesBreakdown = [\<lparr> b_name = lit ''Pyth'' @ [0xA0], b_type = lit ''primary'' \<rparr>] \<rparr>)]
        [(lit ''p1'', \<lparr> p_id = lit ''p1'', p_name = lit ''P'', p_file = lit ''data.ts'', oracles = [],
                   oraclesBreakdown = [\<lparr> b_name = 0x2003 # lit ''Pyth'', b_type = 0x85 # lit ''primary'' \<rparr>] \<rparr>)]
      = []"
    by code_simp
qed

text \<open>C10 at a name made of a space, a no-break space and an ideographic space, between two
  named entries.\<close>

theorem blank_names_invisible_witness:
  "strip (b_name \<lparr> b_name = [0x20, 0xA0, 0x3000], b_type = lit ''primary'' \<rparr>) = []
   \<and> diff_entry (lit ''p1'')
       (\<lparr> p_id = lit ''p1'', p_name = lit ''P'', p_file = lit ''data.ts'', oracles = [], oraclesBreakdown = [] \<rparr>
          \<lparr> oraclesBreakdown := [\<lparr> b_name = lit ''Pyth'', b_type = lit ''a'' \<rparr>]
              @ \<lparr> b_name = [0x20, 0xA0, 0x3000], b_type = lit ''primary'' \<rparr> # [\<lparr> b_name = lit ''Band'', b_type = lit ''b'' \<rparr>] \<rparr>)
       \<lparr> p_id = lit ''p1'', p_name = lit ''P'', p_file = lit ''data.ts'', oracles = [], oraclesBreakdown = [] \<rparr>
     = diff_entry (lit ''p1'')
       (\<lparr> p_id = lit ''p1'', p_name = lit ''P'', p_file = lit ''data.ts'', oracles = [], oraclesBreakdown = [] \<rparr>
          \<lparr> oraclesBreakdown := [\<lparr> b_name = lit ''Pyth'', b_type = lit ''a'' \<rparr>]
              @ [\<lparr> b_name = lit ''Band'', b_type = lit ''b'' \<rparr>] \<rparr>)
       \<lparr> p_id = lit ''p1'', p_name = lit ''P'', p_file = lit ''data.ts'', oracles = [], oraclesBreakdown = [] \<rparr>"
proof -
  have h: "strip (b_name \<lparr> b_name = [0x20, 0xA0, 0x3000], b_type = lit ''primary'' \<rparr>) = []"
    by code_simp
  note r = blank_names_invisible[where e = "\<lparr> b_name = [0x20, 0xA0, 0x3000], b_type = lit ''primary'' \<rparr>"
      and pid = "lit ''p1''"
      and a = "\<lparr> p_id = lit ''p1'', p_name = lit ''P'', p_file = lit ''data.ts'', oracles = [], oraclesBreakdown = [] \<rparr>"
      and xs = "[\<lparr> b_name = lit ''Pyth'', b_type = lit ''a'' \<rparr>]"
      and ys = "[\<lparr> b_name = lit ''Band'', b_type = lit ''b'' \<rparr>]"
      and b = "\<lparr> p_id = lit ''p1'', p_name = lit ''P'', p_file = lit ''data.ts'', oracles = [], oraclesBreakdown = [] \<rparr>",
      THEN conjunct1, THEN mp, OF h, THEN conjunct1]
  from h r show ?thesis by (rule conjI)
qed

section \<open>Properties of the snapshot store\<close>

subsection \<open>C8: loading the snapshot\<close>

text \<open>
  C8, as stated, fails in one direction. A snapshot file that exists and holds the JSON
  document \<^verbatim>\<open>null\<close> is decoded without error to \<^verbatim>\<open>None\<close>, which is also the value
  returned when there is no file: \<^verbatim>\<open>load_snapshot\<close> returns the absent sentinel
  although a snapshot file exists.
\<close>

theorem load_null_document_counterexample:
  "load_snapshot (Document JNull) = Inr JNull \<and> Document JNull \<noteq> NoFile"
  by (simp add: load_snapshot_def)

text \<open>
  C8, amended. \<^verbatim>\<open>load_snapshot\<close> returns \<^verbatim>\<open>None\<close> exactly when no snapshot file
  exists or the file holds the JSON document \<^verbatim>\<open>null\<close>. A file that exists and cannot
  be read, or whose text is not a JSON document, raises an error and is not taken as
  absent. A file that holds a JSON document gives that document whole; its shape is not
  checked.
\<close>

theorem load_snapshot_cases:
  "(load_snapshot f = Inr JNull \<longleftrightarrow> f = NoFile \<or> f = Document JNull)
   \<and> load_snapshot Unreadable = Inl ReadError
   \<and> load_snapshot BadJSON = Inl JSONDecodeError
   \<and> load_snapshot (Document j) = Inr j"
  by (cases f) (auto simp: load_snapshot_def)

section \<open>Properties of the extraction\<close>









subsection \<open>C6: object literals without an id\<close>



section \<open>Properties of the dataset\<close>

lemma visit_distinct:
  "distinct (map fst by_id) \<Longrightarrow> distinct (map fst (visit src fname n by_id))"
  by (simp add: visit_def distinct_update split: option.splits)

lemma walk_distinct:
  "distinct (map fst by_id) \<Longrightarrow> distinct (map fst (walk src fname stack by_id))"
  by (induction src fname stack by_id rule: walk.induct) (simp_all add: visit_distinct)

lemma parse_file_ts_distinct: "distinct (map fst (parse_file_ts parse src fname))"
  unfolding parse_file_ts_def by (rule walk_distinct) simp

lemma map_of_dict_update:
  "distinct (map fst other) \<Longrightarrow>
     map_of (dict_update d other) k =
       (case map_of other k of Some v \<Rightarrow> Some v | None \<Rightarrow> map_of d k)"
proof (induction other arbitrary: d)
  case Nil
  show ?case by (simp add: dict_update_def)
next
  case (Cons kv other)
  have step: "dict_update d (kv # other) = dict_update (AList.update (fst kv) (snd kv) d) other"
    by (simp add: dict_update_def)
  from Cons.prems have d: "distinct (map fst other)" and n: "map_of other (fst kv) = None"
    by (auto simp: map_of_eq_None_iff)
  show ?case
    unfolding step Cons.IH[OF d]
    using n by (cases kv) (auto simp: update_conv' split: option.splits)
qed

lemma map_of_scan_files:
  "map_of (scan_files parse files names d) pid =
     (case last_found parse files names pid of Some r \<Rightarrow> Some r | None \<Rightarrow> map_of d pid)"
proof (induction names arbitrary: d)
  case Nil
  show ?case by simp
next
  case (Cons fname rest)
  show ?case
    by (cases "files fname")
       (auto simp: Cons.IH map_of_dict_update parse_file_ts_distinct split: option.splits)
qed

lemma last_found_last:
  "files f = Some src \<Longrightarrow> map_of (parse_file_ts parse src f) pid = Some r \<Longrightarrow>
     last_found parse files (names @ [f]) pid = Some r"
  by (induction names) auto

subsection \<open>C9: scanning the target files\<close>

text \<open>
  C9. The dataset is built by scanning the five target files in their fixed order. For
  every id, the dataset holds the record of the last listed file that exists and has a
  record with that id: a record of a later file replaces that of an earlier one, and
  nothing else happens on the collision. A listed file that does not exist is skipped, and
  the files after it are scanned as if it were not listed. The ids that collide are the
  decoded ones: two ids whose bytes differ only in bytes that are not valid UTF-8 are the
  same id.
\<close>

theorem last_file_wins:
  "map_of (build_dataset parse files) pid = last_found parse files TARGET_FILES pid
   \<and> TARGET_FILES = [lit ''data.ts'', lit ''data1.ts'', lit ''data2.ts'', lit ''data3.ts'', lit ''data4.ts'']
   \<and> (files f = Some src \<and> map_of (parse_file_ts parse src f) pid = Some r \<longrightarrow>
        map_of (scan_files parse files (names @ [f]) dataset) pid = Some r)
   \<and> (files fname = None \<longrightarrow>
        scan_files parse files (fname # rest) dataset = scan_files parse files rest dataset)"
proof (intro conjI impI)
  show "map_of (build_dataset parse files) pid = last_found parse files TARGET_FILES pid"
    by (simp add: build_dataset_def map_of_scan_files split: option.splits)
  show "TARGET_FILES = [lit ''data.ts'', lit ''data1.ts'', lit ''data2.ts'', lit ''data3.ts'', lit ''data4.ts'']"
    by (rule TARGET_FILES_def)
next
  assume "files f = Some src \<and> map_of (parse_file_ts parse src f) pid = Some r"
  then have "last_found parse files (names @ [f]) pid = Some r"
    by (simp add: last_found_last)
  then show "map_of (scan_files parse files (names @ [f]) dataset) pid = Some r"
    by (simp add: map_of_scan_files)
next
  assume "files fname = None"
  then show "scan_files parse files (fname # rest) dataset = scan_files parse files rest dataset"
    by simp
qed

text \<open>C9 at a data root in which \<^verbatim>\<open>data.ts\<close> and \<^verbatim>\<open>data2.ts\<close> exist and both hold a
  record with the id p1.\<close>

theorem last_file_wins_witness:
  "example_files (lit ''data2.ts'') = Some example_file_b_src
   \<and> map_of (parse_file_ts example_parse example_file_a_src (lit ''data.ts'')) (lit ''p1'')
       = Some \<lparr> p_id = lit ''p1'', p_name = [], p_file = lit ''data.ts'', oracles = [lit ''a''],
                 oraclesBreakdown = [] \<rparr>
   \<and> map_of (parse_file_ts example_parse example_file_b_src (lit ''data2.ts'')) (lit ''p1'')
       = Some \<lparr> p_id = lit ''p1'', p_name = [], p_file = lit ''data2.ts'', oracles = [lit ''b''],
                 oraclesBreakdown = [] \<rparr>
   \<and> map_of (scan_files example_parse example_files ([lit ''data.ts'', lit ''data1.ts''] @ [lit ''data2.ts'']) []) (lit ''p1'')
       = Some \<lparr> p_id = lit ''p1'', p_name = [], p_file = lit ''data2.ts'', oracles = [lit ''b''],
                 oraclesBreakdown = [] \<rparr>
   \<and> example_files (lit ''data1.ts'') = None
   \<and> scan_files example_parse example_files (lit ''data1.ts'' # [lit ''data2.ts'']) []
       = scan_files example_parse example_files [lit ''data2.ts''] []"
proof -
  have f2: "example_files (lit ''data2.ts'') = Some example_file_b_src"
    by code_simp
  have pa: "map_of (parse_file_ts example_parse example_file_a_src (lit ''data.ts'')) (lit ''p1'')
       = Some \<lparr> p_id = lit ''p1'', p_name = [], p_file = lit ''data.ts'', oracles = [lit ''a''],
                 oraclesBreakdown = [] \<rparr>"
    by code_simp
  have pb: "map_of (parse_file_ts example_parse example_file_b_src (lit ''data2.ts'')) (lit ''p1'')
       = Some \<lparr> p_id = lit ''p1'', p_name = [], p_file = lit ''data2.ts'', oracles = [lit ''b''],
                 oraclesBreakdown = [] \<rparr>"
    by code_simp
  have f1: "example_files (lit ''data1.ts'') = None"
    by code_simp
  note w = last_file_wins[where parse = example_parse and files = example_files
      and f = "(lit ''data2.ts'')" and src = example_file_b_src and pid = "(lit ''p1'')"
      and names = "[lit ''data.ts'', lit ''data1.ts'']" and dataset = "[]",
      THEN conjunct2, THEN conjunct2, THEN conjunct1, THEN mp, OF conjI[OF f2 pb]]
  note s = last_file_wins[where parse = example_parse and files = example_files
      and fname = "(lit ''data1.ts'')" and rest = "[lit ''data2.ts'']" and dataset = "[]",
      THEN conjunct2, THEN conjunct2, THEN conjunct2, THEN mp, OF f1]
  from f2 pa pb w f1 s show ?thesis by (intro conjI)
qed

section \<open>Properties of the normalizer\<close>

lemma last_value_snoc:
  "last_value src key P (pairs @ [kv]) =
     (if key_name (fst kv) src = Some key \<and> P (snd kv) then Some (snd kv)
      else last_value src key P pairs)"
  by (simp add: last_value_def)

lemma last_value_Nil: "last_value src key P [] = None"
  by (simp add: last_value_def)

lemma proto_scan_fold:
  "fold (proto_step src) pairs \<lparr> s_pid = None, s_name = [], s_oracles = [], s_breakdown = [] \<rparr>
    = \<lparr> s_pid = map_option (\<lambda>v. unquote (get_text v src)) (last_value src (lit ''id'') node_is_string pairs),
        s_name = (case last_value src (lit ''name'') node_is_string pairs of
                    None \<Rightarrow> [] | Some v \<Rightarrow> unquote (get_text v src)),
        s_oracles = (case last_value src (lit ''oracles'') node_is_array pairs of
                    None \<Rightarrow> [] | Some v \<Rightarrow> sorted_list_of_set (set (array_string_values v src))),
        s_breakdown = (case last_value src (lit ''oraclesBreakdown'') node_is_array pairs of
                    None \<Rightarrow> [] | Some v \<Rightarrow> oracles_breakdown_items v src) \<rparr>"
proof (induction pairs rule: rev_induct)
  case Nil
  show ?case by (simp add: last_value_Nil)
next
  case (snoc kv pairs)
  show ?case
    unfolding fold_append comp_def fold_simps snoc.IH id_def
    by (cases kv) (auto simp: proto_step_def last_value_snoc split: option.splits)
qed

lemma breakdown_fields_eq:
  "breakdown_fields el src = (string_field src (lit ''name'') el, string_field src (lit ''type'') el)"
proof -
  have "fold (breakdown_step src) pairs ([], []) =
      ((case last_value src (lit ''name'') node_is_string pairs of None \<Rightarrow> [] | Some v \<Rightarrow> unquote (get_text v src)),
       (case last_value src (lit ''type'') node_is_string pairs of None \<Rightarrow> [] | Some v \<Rightarrow> unquote (get_text v src)))"
    for pairs
  proof (induction pairs rule: rev_induct)
    case Nil
    show ?case by (simp add: last_value_Nil)
  next
    case (snoc kv pairs)
    show ?case
      unfolding fold_append comp_def fold_simps snoc.IH id_def
      by (cases kv) (auto simp: breakdown_step_def last_value_snoc Let_def split: option.splits)
  qed
  then show ?thesis by (simp add: breakdown_fields_def string_field_def)
qed


lemma map_filter_if:
  "List.map_filter (\<lambda>x. if P x then Some (f x) else None) xs = map f (filter P xs)"
  by (induction xs) (simp_all add: List.map_filter_simps)

lemma breakdown_items_unsorted_eq:
  "breakdown_items_unsorted arr src =
     map (\<lambda>el. \<lparr> b_name = string_field src (lit ''name'') el, b_type = string_field src (lit ''type'') el \<rparr>)
       (filter (\<lambda>el. node_is_object el \<and>
                 (string_field src (lit ''name'') el \<noteq> [] \<or> string_field src (lit ''type'') el \<noteq> []))
          (named_children arr))"
proof -
  have "breakdown_items_unsorted arr src =
      List.map_filter
        (\<lambda>el. if string_field src (lit ''name'') el \<noteq> [] \<or> string_field src (lit ''type'') el \<noteq> []
               then Some \<lparr> b_name = string_field src (lit ''name'') el, b_type = string_field src (lit ''type'') el \<rparr>
               else None)
        (filter node_is_object (named_children arr))"
    by (simp only: breakdown_items_unsorted_def breakdown_fields_eq prod.case)
  also have "\<dots> =
      map (\<lambda>el. \<lparr> b_name = string_field src (lit ''name'') el, b_type = string_field src (lit ''type'') el \<rparr>)
        (filter (\<lambda>el. string_field src (lit ''name'') el \<noteq> [] \<or> string_field src (lit ''type'') el \<noteq> [])
           (filter node_is_object (named_children arr)))"
    by (rule map_filter_if)
  finally show ?thesis by (simp only: filter_filter)
qed

lemma object_to_protocol_min_fields:
  assumes "object_to_protocol_min obj src fname = Some r"
  shows "oracles r = (case last_value src (lit ''oracles'') node_is_array (iter_object_pairs obj) of
                        None \<Rightarrow> [] | Some v \<Rightarrow> sorted_list_of_set (set (array_string_values v src)))"
    and "oraclesBreakdown r =
           (case last_value src (lit ''oraclesBreakdown'') node_is_array (iter_object_pairs obj) of
              None \<Rightarrow> [] | Some v \<Rightarrow> oracles_breakdown_items v src)"
  using assms
  by (auto simp: object_to_protocol_min_def proto_scan_def proto_scan_fold Let_def
      split: option.splits if_splits)

subsection \<open>C7: canonical form of a record\<close>

text \<open>
  C7. In every extracted record, \<^verbatim>\<open>oracles\<close> is sorted and free of duplicates and holds
  exactly the unquoted texts of the string elements of the source array (the value of the
  last array-valued \<^verbatim>\<open>oracles\<close> pair; nothing when there is none), and
  \<^verbatim>\<open>oraclesBreakdown\<close> is the list of breakdown items of the source array. That list is
  sorted by the pair of name and type; it has one entry for each element of the array
  that is an object literal and has a non-empty name or type, built from the string-valued
  \<^verbatim>\<open>name\<close> and \<^verbatim>\<open>type\<close> fields of the element with the empty string for a field
  that is absent or not a string. The text of a node is the decoded one, in which invalid
  bytes are left out, and the order is that of the code points.
\<close>

theorem canonical_record:
  "(object_to_protocol_min obj src fname = Some r \<longrightarrow>
      sorted (oracles r) \<and> distinct (oracles r)
      \<and> set (oracles r) =
          (case last_value src (lit ''oracles'') node_is_array (iter_object_pairs obj) of
             None \<Rightarrow> {}
           | Some arr \<Rightarrow> (\<lambda>el. unquote (get_text el src)) `
                          {el \<in> set (named_children arr). node_is_string el})
      \<and> oraclesBreakdown r =
          (case last_value src (lit ''oraclesBreakdown'') node_is_array (iter_object_pairs obj) of
             None \<Rightarrow> []
           | Some arr \<Rightarrow> oracles_breakdown_items arr src))
   \<and> sorted (map (\<lambda>x. (b_name x, b_type x)) (oracles_breakdown_items arr src))
   \<and> set (oracles_breakdown_items arr src) =
        {x. (b_name x \<noteq> [] \<or> b_type x \<noteq> []) \<and>
            (\<exists>el \<in> set (named_children arr). node_is_object el \<and>
               x = \<lparr> b_name = string_field src (lit ''name'') el, b_type = string_field src (lit ''type'') el \<rparr>)}
   \<and> length (oracles_breakdown_items arr src) =
        length (filter (\<lambda>el. node_is_object el \<and>
                  (string_field src (lit ''name'') el \<noteq> [] \<or> string_field src (lit ''type'') el \<noteq> []))
           (named_children arr))"
proof (intro conjI impI)
  assume h: "object_to_protocol_min obj src fname = Some r"
  note o = object_to_protocol_min_fields(1)[OF h]
  show "sorted (oracles r)" "distinct (oracles r)"
    unfolding o by (simp_all split: option.splits)
  show "set (oracles r) =
          (case last_value src (lit ''oracles'') node_is_array (iter_object_pairs obj) of
             None \<Rightarrow> {}
           | Some arr \<Rightarrow> (\<lambda>el. unquote (get_text el src)) `
                          {el \<in> set (named_children arr). node_is_string el})"
    unfolding o by (auto simp: array_string_values_def split: option.splits)
  show "oraclesBreakdown r =
          (case last_value src (lit ''oraclesBreakdown'') node_is_array (iter_object_pairs obj) of
             None \<Rightarrow> []
           | Some arr \<Rightarrow> oracles_breakdown_items arr src)"
    by (rule object_to_protocol_min_fields(2)[OF h])
next
  show "sorted (map (\<lambda>x. (b_name x, b_type x)) (oracles_breakdown_items arr src))"
    by (simp add: oracles_breakdown_items_def)
  show "set (oracles_breakdown_items arr src) =
        {x. (b_name x \<noteq> [] \<or> b_type x \<noteq> []) \<and>
            (\<exists>el \<in> set (named_children arr). node_is_object el \<and>
               x = \<lparr> b_name = string_field src (lit ''name'') el, b_type = string_field src (lit ''type'') el \<rparr>)}"
    unfolding oracles_breakdown_items_def set_sort breakdown_items_unsorted_eq
    by auto
  show "length (oracles_breakdown_items arr src) =
        length (filter (\<lambda>el. node_is_object el \<and>
                  (string_field src (lit ''name'') el \<noteq> [] \<or> string_field src (lit ''type'') el \<noteq> []))
           (named_children arr))"
    unfolding oracles_breakdown_items_def breakdown_items_unsorted_eq by simp
qed

text \<open>C7 at an object literal with a repeated and a non-string oracle and with breakdown
  elements that lack a name, lack both fields, or are not object literals.\<close>

theorem canonical_record_witness:
  "object_to_protocol_min example_record_object example_record_src (lit ''data.ts'')
     = Some \<lparr> p_id = lit ''p1'', p_name = [], p_file = lit ''data.ts'', oracles = [lit ''a'', lit ''b''],
               oraclesBreakdown = [\<lparr> b_name = [], b_type = lit ''x'' \<rparr>, \<lparr> b_name = lit ''N'', b_type = lit ''t'' \<rparr>] \<rparr>
   \<and> sorted (oracles \<lparr> p_id = lit ''p1'', p_name = [], p_file = lit ''data.ts'', oracles = [lit ''a'', lit ''b''],
               oraclesBreakdown = [\<lparr> b_name = [], b_type = lit ''x'' \<rparr>, \<lparr> b_name = lit ''N'', b_type = lit ''t'' \<rparr>] \<rparr>)
   \<and> distinct (oracles \<lparr> p_id = lit ''p1'', p_name = [], p_file = lit ''data.ts'', oracles = [lit ''a'', lit ''b''],
               oraclesBreakdown = [\<lparr> b_name = [], b_type = lit ''x'' \<rparr>, \<lparr> b_name = lit ''N'', b_type = lit ''t'' \<rparr>] \<rparr>)"
proof -
  have h: "object_to_protocol_min example_record_object example_record_src (lit ''data.ts'')
     = Some \<lparr> p_id = lit ''p1'', p_name = [], p_file = lit ''data.ts'', oracles = [lit ''a'', lit ''b''],
               oraclesBreakdown = [\<lparr> b_name = [], b_type = lit ''x'' \<rparr>, \<lparr> b_name = lit ''N'', b_type = lit ''t'' \<rparr>] \<rparr>"
    by code_simp
  note r = canonical_record[where obj = example_record_object and src = example_record_src
      and fname = "(lit ''data.ts'')", THEN conjunct1, THEN mp, OF h]
  from h r[THEN conjunct1] r[THEN conjunct2, THEN conjunct1] show ?thesis by (intro conjI)
qed

end
